theory Spec2Isabelle
  imports Complex_Main "HOL-Library.List_Lexorder" "HOL-Library.Char_ord" "HOL-Library.Sublist"
begin

section \<open>Python and NumPy primitives used by \<open>pauli_string.py\<close>\<close>

text \<open>
  Exceptions of the source are values: every \<open>raise\<close> and every failing primitive is a
  branch that returns \<open>Inl\<close> of the exception's class.  One-dimensional NumPy arrays are
  lists; complex coefficients are exact complex numbers (rounding of \<open>complex128\<close> is not
  modelled).
\<close>

datatype error = ValueError | IndexError | TypeError | NotImplementedError

definition bindE :: "error + 'a \<Rightarrow> ('a \<Rightarrow> error + 'b) \<Rightarrow> error + 'b" where
  "bindE m f = (case m of Inl e \<Rightarrow> Inl e | Inr v \<Rightarrow> f v)"

text \<open>Running a loop body over a sequence, stopping at the first exception.\<close>

fun foldE :: "('a \<Rightarrow> 's \<Rightarrow> error + 's) \<Rightarrow> 'a list \<Rightarrow> 's \<Rightarrow> error + 's" where
  "foldE f [] s = Inr s"
| "foldE f (a # as) s = bindE (f a s) (foldE f as)"

text \<open>A list comprehension whose element expression may raise.\<close>

fun mapE :: "('a \<Rightarrow> error + 'b) \<Rightarrow> 'a list \<Rightarrow> error + 'b list" where
  "mapE f [] = Inr []"
| "mapE f (a # as) = bindE (f a) (\<lambda>b. bindE (mapE f as) (\<lambda>bs. Inr (b # bs)))"

text \<open>
  An elementwise binary operation on two one-dimensional arrays with NumPy's
  broadcasting: equal lengths pair up, a length-one operand is stretched, anything else
  raises \<open>ValueError\<close>.
\<close>

definition broadcast2 :: "('a \<Rightarrow> 'b \<Rightarrow> 'c) \<Rightarrow> 'a list \<Rightarrow> 'b list \<Rightarrow> error + 'c list" where
  "broadcast2 f xs ys =
     (if length xs = length ys then Inr (map2 f xs ys)
      else if length xs = 1 then Inr (map (f (hd xs)) ys)
      else if length ys = 1 then Inr (map (\<lambda>x. f x (hd ys)) xs)
      else Inl ValueError)"

definition logical_xor :: "bool list \<Rightarrow> bool list \<Rightarrow> error + bool list" where
  "logical_xor = broadcast2 (\<lambda>a b. a \<noteq> b)"

definition logical_and :: "bool list \<Rightarrow> bool list \<Rightarrow> error + bool list" where
  "logical_and = broadcast2 (\<lambda>a b. a \<and> b)"

text \<open>\<open>np.sum\<close> of a boolean array counts its \<open>True\<close> entries.\<close>

definition np_sum :: "bool list \<Rightarrow> int" where
  "np_sum bs = sum_list (map (\<lambda>b. if b then 1 else 0) bs)"

text \<open>Indexing with a non-negative index; out of range raises \<open>IndexError\<close>.\<close>

definition getitem :: "'a list \<Rightarrow> nat \<Rightarrow> error + 'a" where
  "getitem xs i = (if i < length xs then Inr (xs ! i) else Inl IndexError)"

definition setitem :: "'a list \<Rightarrow> nat \<Rightarrow> 'a \<Rightarrow> error + 'a list" where
  "setitem xs i v = (if i < length xs then Inr (xs[i := v]) else Inl IndexError)"

text \<open>\<open>str.upper\<close> on one ASCII character.\<close>

definition upper :: "char \<Rightarrow> char" where
  "upper c = (if CHR ''a'' \<le> c \<and> c \<le> CHR ''z''
              then char_of (of_char c - (32::nat)) else c)"

section \<open>Class \<open>PauliString\<close>\<close>

record PauliString =
  z_bits :: "bool list"
  x_bits :: "bool list"

text \<open>\<open>PauliString.__init__\<close>\<close>

definition PauliString_init :: "bool list \<Rightarrow> bool list \<Rightarrow> error + PauliString" where
  "PauliString_init z x =
     (if length z \<noteq> length x then Inl ValueError
      else Inr \<lparr>z_bits = z, x_bits = x\<rparr>)"

text \<open>\<open>PauliString.__len__\<close>\<close>

definition PauliString_len :: "PauliString \<Rightarrow> nat" where
  "PauliString_len self = length (z_bits self)"

text \<open>
  \<open>PauliString.__str__\<close>: \<open>pauli_choices = z_bits + 2*x_bits\<close> indexes \<open>'IZXY'\<close>, read in
  reverse.
\<close>

definition pauli_labels :: string where
  "pauli_labels = ''IZXY''"

definition PauliString_str :: "PauliString \<Rightarrow> error + string" where
  "PauliString_str self =
     bindE (broadcast2 (\<lambda>z x. (if z then 1 else 0) + 2 * (if x then 1 else (0::nat)))
              (z_bits self) (x_bits self))
       (\<lambda>pauli_choices. mapE (getitem pauli_labels) (rev pauli_choices))"

text \<open>\<open>PauliString.from_zx_bits\<close>\<close>

definition from_zx_bits :: "bool list \<Rightarrow> error + PauliString" where
  "from_zx_bits zx_bits =
     PauliString_init (take (length zx_bits div 2) zx_bits)
                      (drop (length zx_bits div 2) zx_bits)"

text \<open>\<open>PauliString.from_str\<close>: the loop over the reversed string, appending to both lists.\<close>

fun from_str_loop :: "string \<Rightarrow> bool list \<Rightarrow> bool list \<Rightarrow> error + (bool list \<times> bool list)" where
  "from_str_loop [] z x = Inr (z, x)"
| "from_str_loop (pauli # rest) z x =
     (if upper pauli = CHR ''X'' then from_str_loop rest (z @ [False]) (x @ [True])
      else if upper pauli = CHR ''Y'' then from_str_loop rest (z @ [True]) (x @ [True])
      else if upper pauli = CHR ''Z'' then from_str_loop rest (z @ [True]) (x @ [False])
      else if upper pauli = CHR ''I'' then from_str_loop rest (z @ [False]) (x @ [False])
      else Inl ValueError)"

definition from_str :: "string \<Rightarrow> error + PauliString" where
  "from_str pauli_str =
     bindE (from_str_loop (rev pauli_str) [] []) (\<lambda>(z, x). PauliString_init z x)"

text \<open>\<open>PauliString.to_zx_bits\<close> and \<open>PauliString.to_xz_bits\<close>\<close>

definition to_zx_bits :: "PauliString \<Rightarrow> bool list" where
  "to_zx_bits self = z_bits self @ x_bits self"

definition to_xz_bits :: "PauliString \<Rightarrow> bool list" where
  "to_xz_bits self = x_bits self @ z_bits self"

text \<open>
  \<open>PauliString.mul_pauli_string\<close>.  The exponent is reduced with Python's \<open>%\<close>, whose
  result for the divisor 4 lies in \<open>0..3\<close> also when the left side is negative.
\<close>

definition mul_pauli_string :: "PauliString \<Rightarrow> PauliString \<Rightarrow> error + (PauliString \<times> complex)" where
  "mul_pauli_string self other =
     (if PauliString_len self \<noteq> PauliString_len other then Inl ValueError
      else
        bindE (logical_xor (z_bits self) (z_bits other)) (\<lambda>new_z_bits.
        bindE (logical_xor (x_bits self) (x_bits other)) (\<lambda>new_x_bits.
        bindE (logical_and (z_bits other) (x_bits self)) (\<lambda>z2x1.
        bindE (logical_and (z_bits self) (x_bits self)) (\<lambda>z1x1.
        bindE (logical_and (z_bits other) (x_bits other)) (\<lambda>z2x2.
        bindE (logical_and new_z_bits new_x_bits) (\<lambda>z3x3.
          let w = (2 * np_sum z2x1 + np_sum z1x1 + np_sum z2x2 - np_sum z3x3) mod 4;
              phase = (- \<i>) ^ nat w
          in bindE (PauliString_init new_z_bits new_x_bits) (\<lambda>p. Inr (p, phase)))))))))"

text \<open>\<open>PauliString.mul_coef\<close> is defined after the class it builds.\<close>

section \<open>Class \<open>LinearCombinaisonPauliString\<close>\<close>

record LinearCombinaisonPauliString =
  coefs :: "complex list"
  pauli_strings :: "PauliString list"
  n_terms :: nat
  n_qubits :: nat

text \<open>
  \<open>LinearCombinaisonPauliString.__init__\<close>: the length check, then \<open>pauli_strings[0]\<close>
  (an \<open>IndexError\<close> on an empty sequence), then the loop that compares every length.
\<close>

definition LCPS_init :: "complex list \<Rightarrow> PauliString list \<Rightarrow> error + LinearCombinaisonPauliString" where
  "LCPS_init cs ps =
     (if length cs \<noteq> length ps then Inl ValueError
      else bindE (getitem ps 0) (\<lambda>first.
        let nq = PauliString_len first in
        if list_ex (\<lambda>pauli. PauliString_len pauli \<noteq> nq) ps then Inl ValueError
        else Inr \<lparr>coefs = cs, pauli_strings = ps, n_terms = length ps, n_qubits = nq\<rparr>))"

text \<open>\<open>LinearCombinaisonPauliString.__len__\<close>\<close>

definition LCPS_len :: "LinearCombinaisonPauliString \<Rightarrow> nat" where
  "LCPS_len self = length (pauli_strings self)"

text \<open>\<open>PauliString.mul_coef\<close>\<close>

definition PauliString_mul_coef :: "PauliString \<Rightarrow> complex \<Rightarrow> error + LinearCombinaisonPauliString" where
  "PauliString_mul_coef self coef = LCPS_init [coef] [self]"

text \<open>
  \<open>__getitem__\<close>.  A key is a slice, an \<open>int\<close>, a boolean mask or a sequence of
  integers.  A slice selects the indices Python computes for it (negative bounds count
  from the end, bounds are clipped, a zero step raises); an integer index may be negative
  and raises \<open>IndexError\<close> out of range; a mask must have the array's length.
\<close>

datatype key = Slice "int option" "int option" "int option"
  | IntKey int | BoolMask "bool list" | IntList "int list"

definition slice_indices :: "nat \<Rightarrow> int option \<Rightarrow> int option \<Rightarrow> int option \<Rightarrow> error + nat list" where
  "slice_indices len start stop step =
     (let st = (case step of None \<Rightarrow> 1 | Some s \<Rightarrow> s) in
      if st = 0 then Inl ValueError
      else
        let n = int len;
            adj = (\<lambda>v. if v < 0 then (if v + n < 0 then (if st < 0 then - 1 else 0) else v + n)
                       else if v \<ge> n then (if st < 0 then n - 1 else n) else v);
            a = (case start of None \<Rightarrow> (if st < 0 then n - 1 else 0) | Some v \<Rightarrow> adj v);
            b = (case stop of None \<Rightarrow> (if st < 0 then - 1 else n) | Some v \<Rightarrow> adj v);
            cnt = (if st < 0 then (if b < a then (a - b - 1) div (- st) + 1 else 0)
                   else (if a < b then (b - a - 1) div st + 1 else 0))
        in Inr (map (\<lambda>k. nat (a + int k * st)) [0..<nat cnt]))"

definition int_index :: "nat \<Rightarrow> int \<Rightarrow> error + nat" where
  "int_index len i =
     (if - int len \<le> i \<and> i < int len then Inr (nat (if i < 0 then i + int len else i))
      else Inl IndexError)"

definition index_array :: "'a list \<Rightarrow> key \<Rightarrow> error + 'a list" where
  "index_array xs k =
     (case k of
        Slice start stop step \<Rightarrow>
          bindE (slice_indices (length xs) start stop step) (\<lambda>is. Inr (map (\<lambda>i. xs ! i) is))
      | IntKey i \<Rightarrow> bindE (int_index (length xs) i) (\<lambda>j. Inr [xs ! j])
      | BoolMask m \<Rightarrow>
          (if length m \<noteq> length xs then Inl IndexError
           else Inr (map fst (filter snd (zip xs m))))
      | IntList is \<Rightarrow> bindE (mapE (int_index (length xs)) is) (\<lambda>js. Inr (map (\<lambda>j. xs ! j) js)))"

definition LCPS_getitem :: "LinearCombinaisonPauliString \<Rightarrow> key \<Rightarrow> error + LinearCombinaisonPauliString" where
  "LCPS_getitem self k =
     bindE (index_array (coefs self) k) (\<lambda>new_coefs.
     bindE (index_array (pauli_strings self) k) (\<lambda>new_pauli_strings.
       LCPS_init new_coefs new_pauli_strings))"

text \<open>\<open>add_pauli_string_linear_combinaison\<close>\<close>

definition add_pauli_string_linear_combinaison ::
  "LinearCombinaisonPauliString \<Rightarrow> LinearCombinaisonPauliString \<Rightarrow> error + LinearCombinaisonPauliString" where
  "add_pauli_string_linear_combinaison self other =
     (if n_qubits self \<noteq> n_qubits other then Inl ValueError
      else LCPS_init (coefs self @ coefs other) (pauli_strings self @ pauli_strings other))"

text \<open>
  \<open>mul_linear_combinaison_pauli_string\<close>.  Both result arrays start as \<open>np.zeros\<close>; a slot
  of the object array holds the integer \<open>0\<close> (\<open>None\<close> here) until the loop stores a
  PauliString in it.
\<close>

definition mul_body :: "LinearCombinaisonPauliString \<Rightarrow> LinearCombinaisonPauliString \<Rightarrow> nat \<Rightarrow> nat
    \<Rightarrow> complex list \<times> PauliString option list \<Rightarrow> error + (complex list \<times> PauliString option list)" where
  "mul_body self other i j st =
     (case st of (new_coefs, new_pauli_strings) \<Rightarrow>
        bindE (getitem (pauli_strings self) i) (\<lambda>pi.
        bindE (getitem (pauli_strings other) j) (\<lambda>pj.
        bindE (mul_pauli_string pi pj) (\<lambda>(prod, phase).
        bindE (setitem new_pauli_strings (i * n_terms other + j) (Some prod)) (\<lambda>new_pauli_strings'.
        bindE (getitem (coefs self) i) (\<lambda>ci.
        bindE (getitem (coefs other) j) (\<lambda>cj.
        bindE (setitem new_coefs (i * n_terms other + j) (ci * cj * phase)) (\<lambda>new_coefs'.
          Inr (new_coefs', new_pauli_strings')))))))))"

text \<open>
  The constructor as it runs on such an object array: \<open>len\<close> of a slot that holds the
  integer \<open>0\<close> raises \<open>TypeError\<close>, at \<open>pauli_strings[0]\<close> or inside the loop.
\<close>

definition slot_len :: "PauliString option \<Rightarrow> error + nat" where
  "slot_len slot = (case slot of None \<Rightarrow> Inl TypeError | Some p \<Rightarrow> Inr (PauliString_len p))"

definition unbox :: "PauliString option \<Rightarrow> error + PauliString" where
  "unbox slot = (case slot of None \<Rightarrow> Inl TypeError | Some p \<Rightarrow> Inr p)"

definition LCPS_init_slots ::
  "complex list \<Rightarrow> PauliString option list \<Rightarrow> error + LinearCombinaisonPauliString" where
  "LCPS_init_slots cs slots =
     (if length cs \<noteq> length slots then Inl ValueError
      else bindE (getitem slots 0) (\<lambda>first.
           bindE (slot_len first) (\<lambda>nq.
           bindE (foldE (\<lambda>pauli u. bindE (slot_len pauli) (\<lambda>l.
                           if l \<noteq> nq then Inl ValueError else Inr u)) slots ()) (\<lambda>u.
           bindE (mapE unbox slots) (\<lambda>ps.
             Inr \<lparr>coefs = cs, pauli_strings = ps, n_terms = length slots, n_qubits = nq\<rparr>)))))"

definition mul_linear_combinaison_pauli_string ::
  "LinearCombinaisonPauliString \<Rightarrow> LinearCombinaisonPauliString \<Rightarrow> error + LinearCombinaisonPauliString" where
  "mul_linear_combinaison_pauli_string self other =
     (if n_qubits self \<noteq> n_qubits other then Inl ValueError
      else
        bindE (foldE (\<lambda>i. foldE (\<lambda>j. mul_body self other i j) [0..<n_terms other])
                 [0..<n_terms self]
                 (replicate (LCPS_len self * LCPS_len other) 0,
                  replicate (LCPS_len self * LCPS_len other) None))
          (\<lambda>(new_coefs, new_pauli_strings). LCPS_init_slots new_coefs new_pauli_strings))"



text \<open>
  \<open>LinearCombinaisonPauliString.to_zx_bits\<close>: a table of \<open>len(self)\<close> rows of
  \<open>2*n_qubits\<close> zeros, each row then assigned from its PauliString.  A row assignment
  accepts a value of the row's length or of length one (broadcast).
\<close>

definition assign_row :: "bool list list \<Rightarrow> nat \<Rightarrow> bool list \<Rightarrow> error + bool list list" where
  "assign_row table i v =
     (if i \<ge> length table then Inl IndexError
      else if length v = length (table ! i) then Inr (table[i := v])
      else if length v = 1 then Inr (table[i := replicate (length (table ! i)) (hd v)])
      else Inl ValueError)"

definition LCPS_to_zx_bits :: "LinearCombinaisonPauliString \<Rightarrow> error + bool list list" where
  "LCPS_to_zx_bits self =
     foldE (\<lambda>(i, ps) zx_bits. assign_row zx_bits i (to_zx_bits ps))
       (enumerate 0 (pauli_strings self))
       (replicate (LCPS_len self) (replicate (2 * n_qubits self) False))"

text \<open>
  \<open>combine\<close>.  \<open>np.unique(..., axis=0)\<close> sorts the rows lexicographically
  (\<open>False < True\<close>) and drops repeated neighbours.  \<open>self.coefs[mask]\<close> needs a mask of
  the array's length; the builtin \<open>sum\<close> adds from the left, starting at \<open>0\<close>.
\<close>

definition np_unique_rows :: "bool list list \<Rightarrow> bool list list" where
  "np_unique_rows rows = remdups_adj (sort rows)"

definition py_sum :: "complex list \<Rightarrow> complex" where
  "py_sum xs = foldl (\<lambda>a b. a + b) 0 xs"

definition combine :: "LinearCombinaisonPauliString \<Rightarrow> error + LinearCombinaisonPauliString" where
  "combine self =
     bindE (LCPS_to_zx_bits self) (\<lambda>old_pauli_strings.
       let new_pauli_strings_zx = np_unique_rows old_pauli_strings in
       bindE (mapE from_zx_bits new_pauli_strings_zx) (\<lambda>new_pauli_strings.
       bindE (mapE (\<lambda>u. bindE (index_array (coefs self)
                                   (BoolMask (map (\<lambda>row. row = u) old_pauli_strings)))
                           (\<lambda>sel. Inr (py_sum sel)))
                new_pauli_strings_zx) (\<lambda>new_coefs.
         LCPS_init new_coefs new_pauli_strings)))"

text \<open>\<open>apply_threshold\<close>\<close>

definition apply_threshold :: "LinearCombinaisonPauliString \<Rightarrow> real \<Rightarrow> error + LinearCombinaisonPauliString" where
  "apply_threshold self threshold =
     LCPS_getitem self (BoolMask (map (\<lambda>c. cmod c \<ge> threshold) (coefs self)))"

text \<open>\<open>divide_in_bitwise_commuting_cliques\<close>: the body is the \<open>raise\<close> statement.\<close>

definition divide_in_bitwise_commuting_cliques ::
  "LinearCombinaisonPauliString \<Rightarrow> error + LinearCombinaisonPauliString list" where
  "divide_in_bitwise_commuting_cliques self = Inl NotImplementedError"

text \<open>
  \<open>sort\<close>.  The key of a term is its zx row, flipped, written with the characters
  \<open>0\<close> and \<open>1\<close>; \<open>np.argsort\<close> orders the keys as strings.  NumPy's default sort
  promises no order among equal keys (it keeps them in place up to 16 elements);
  \<open>np_argsort\<close> keeps them in place always.  For keys that are pairwise different the
  order is determined, whatever the sort (\<open>argsort_unique\<close> below), and the statement
  about \<open>sort\<close> is made at such keys.
\<close>

definition bit_char :: "bool \<Rightarrow> char" where
  "bit_char b = (if b then CHR ''1'' else CHR ''0'')"

definition np_argsort :: "string list \<Rightarrow> nat list" where
  "np_argsort keys = map snd (sort_key fst (zip keys [0..<length keys]))"

definition sort_lcps :: "LinearCombinaisonPauliString \<Rightarrow> error + LinearCombinaisonPauliString" where
  "sort_lcps self =
     bindE (LCPS_to_zx_bits self) (\<lambda>table.
       let order = np_argsort (map (\<lambda>bitstring. map bit_char (rev bitstring)) table) in
       bindE (mapE (getitem (coefs self)) order) (\<lambda>new_coefs.
       bindE (mapE (getitem (pauli_strings self)) order) (\<lambda>new_pauli_strings.
         LCPS_init new_coefs new_pauli_strings)))"

section \<open>What the constructors establish\<close>

text \<open>
  A PauliString that \<open>PauliString.__init__\<close> accepted has as many z bits as x bits; a
  linear combination that the constructor accepted, over such PauliStrings, is
  well formed.
\<close>

definition wf_PauliString :: "PauliString \<Rightarrow> bool" where
  "wf_PauliString p = (PauliString_init (z_bits p) (x_bits p) = Inr p)"

definition wf_LCPS :: "LinearCombinaisonPauliString \<Rightarrow> bool" where
  "wf_LCPS L = (LCPS_init (coefs L) (pauli_strings L) = Inr L
                \<and> list_all wf_PauliString (pauli_strings L))"

section \<open>The same operations on a store of objects\<close>

text \<open>
  Whether an operation changes its operands cannot be read off a function on values.
  For that question the instances and arrays live in a store: a reference is a
  position in the list of all objects allocated so far, allocation appends, and an item
  assignment \<open>a[i] = v\<close> replaces the array object at the reference of \<open>a\<close>.  An
  instance holds references to its arrays; an object array holds references to
  PauliString instances, or the integer \<open>0\<close> that \<open>np.zeros\<close> put there (\<open>None\<close>);
  a Python list of numbers, which a caller may pass as a factor, is an object too.
  A program returns its result or its exception together with the store it leaves.
  Reading a reference that holds an object of another class raises \<open>TypeError\<close>.
  Slices and rows, which NumPy hands out as views, are arrays of their own here; the
  source never assigns through one.  Temporaries that no name is bound to (the
  arguments of \<open>np.sum\<close>) are not allocated, and the key of an item access is a value.
\<close>

type_synonym ref = nat

datatype obj =
    CArr "complex list"
  | BArr "bool list"
  | BTab "bool list list"
  | OArr "ref option list"
  | PyList "complex list"
  | PSobj ref ref
  | LCobj ref ref nat nat

type_synonym heap = "obj list"

type_synonym 'a prog = "heap \<Rightarrow> (error + 'a) \<times> heap"

definition returnH :: "'a \<Rightarrow> 'a prog" where
  "returnH v h = (Inr v, h)"

definition raiseH :: "error \<Rightarrow> 'a prog" where
  "raiseH e h = (Inl e, h)"

definition liftE :: "error + 'a \<Rightarrow> 'a prog" where
  "liftE r h = (r, h)"

definition bindH :: "'a prog \<Rightarrow> ('a \<Rightarrow> 'b prog) \<Rightarrow> 'b prog" where
  "bindH m f h = (case m h of (Inl e, h') \<Rightarrow> (Inl e, h') | (Inr v, h') \<Rightarrow> f v h')"

definition alloc :: "obj \<Rightarrow> ref prog" where
  "alloc ob h = (Inr (length h), h @ [ob])"

definition load :: "ref \<Rightarrow> obj prog" where
  "load r h = (if r < length h then (Inr (h ! r), h) else (Inl TypeError, h))"

definition store :: "ref \<Rightarrow> obj \<Rightarrow> unit prog" where
  "store r ob h = (if r < length h then (Inr (), h[r := ob]) else (Inl TypeError, h))"

definition load_CArr :: "ref \<Rightarrow> complex list prog" where
  "load_CArr r = bindH (load r) (\<lambda>ob. case ob of CArr cs \<Rightarrow> returnH cs | _ \<Rightarrow> raiseH TypeError)"

definition load_BArr :: "ref \<Rightarrow> bool list prog" where
  "load_BArr r = bindH (load r) (\<lambda>ob. case ob of BArr bs \<Rightarrow> returnH bs | _ \<Rightarrow> raiseH TypeError)"

definition load_BTab :: "ref \<Rightarrow> bool list list prog" where
  "load_BTab r = bindH (load r) (\<lambda>ob. case ob of BTab t \<Rightarrow> returnH t | _ \<Rightarrow> raiseH TypeError)"

definition load_OArr :: "ref \<Rightarrow> ref option list prog" where
  "load_OArr r = bindH (load r) (\<lambda>ob. case ob of OArr s \<Rightarrow> returnH s | _ \<Rightarrow> raiseH TypeError)"

definition load_PyList :: "ref \<Rightarrow> complex list prog" where
  "load_PyList r = bindH (load r) (\<lambda>ob. case ob of PyList xs \<Rightarrow> returnH xs | _ \<Rightarrow> raiseH TypeError)"

definition load_PS :: "ref \<Rightarrow> (ref \<times> ref) prog" where
  "load_PS r = bindH (load r) (\<lambda>ob. case ob of PSobj z x \<Rightarrow> returnH (z, x) | _ \<Rightarrow> raiseH TypeError)"

definition load_LC :: "ref \<Rightarrow> (ref \<times> ref \<times> nat \<times> nat) prog" where
  "load_LC r = bindH (load r)
     (\<lambda>ob. case ob of LCobj c p nt nq \<Rightarrow> returnH (c, p, nt, nq) | _ \<Rightarrow> raiseH TypeError)"

definition load_slot :: "ref option \<Rightarrow> ref prog" where
  "load_slot slot = (case slot of None \<Rightarrow> raiseH TypeError | Some p \<Rightarrow> returnH p)"

fun foldH :: "('a \<Rightarrow> 's \<Rightarrow> 's prog) \<Rightarrow> 'a list \<Rightarrow> 's \<Rightarrow> 's prog" where
  "foldH f [] s = returnH s"
| "foldH f (a # as) s = bindH (f a s) (foldH f as)"

fun mapH :: "('a \<Rightarrow> 'b prog) \<Rightarrow> 'a list \<Rightarrow> 'b list prog" where
  "mapH f [] = returnH []"
| "mapH f (a # as) = bindH (f a) (\<lambda>b. bindH (mapH f as) (\<lambda>bs. returnH (b # bs)))"

subsection \<open>PauliString instances\<close>

text \<open>\<open>PauliString.__init__\<close> keeps the two arrays it is given.\<close>

definition PauliString_init_h :: "ref \<Rightarrow> ref \<Rightarrow> ref prog" where
  "PauliString_init_h z x =
     bindH (load_BArr z) (\<lambda>zs.
     bindH (load_BArr x) (\<lambda>xs.
       if length zs \<noteq> length xs then raiseH ValueError else alloc (PSobj z x)))"

definition PauliString_len_h :: "ref \<Rightarrow> nat prog" where
  "PauliString_len_h self =
     bindH (load_PS self) (\<lambda>(z, x). bindH (load_BArr z) (\<lambda>zs. returnH (length zs)))"

definition to_zx_bits_h :: "ref \<Rightarrow> ref prog" where
  "to_zx_bits_h self =
     bindH (load_PS self) (\<lambda>(z, x).
     bindH (load_BArr z) (\<lambda>zs.
     bindH (load_BArr x) (\<lambda>xs. alloc (BArr (zs @ xs)))))"

definition from_zx_bits_h :: "bool list \<Rightarrow> ref prog" where
  "from_zx_bits_h zx_bits =
     bindH (alloc (BArr (take (length zx_bits div 2) zx_bits))) (\<lambda>z.
     bindH (alloc (BArr (drop (length zx_bits div 2) zx_bits))) (\<lambda>x.
       PauliString_init_h z x))"

definition mul_pauli_string_h :: "ref \<Rightarrow> ref \<Rightarrow> (ref \<times> complex) prog" where
  "mul_pauli_string_h self other =
     bindH (PauliString_len_h self) (\<lambda>n1.
     bindH (PauliString_len_h other) (\<lambda>n2.
       if n1 \<noteq> n2 then raiseH ValueError
       else
         bindH (load_PS self) (\<lambda>(z1, x1).
         bindH (load_PS other) (\<lambda>(z2, x2).
         bindH (load_BArr z1) (\<lambda>z1s.
         bindH (load_BArr z2) (\<lambda>z2s.
         bindH (liftE (logical_xor z1s z2s)) (\<lambda>nz.
         bindH (alloc (BArr nz)) (\<lambda>new_z_bits.
         bindH (load_BArr x1) (\<lambda>x1s.
         bindH (load_BArr x2) (\<lambda>x2s.
         bindH (liftE (logical_xor x1s x2s)) (\<lambda>nx.
         bindH (alloc (BArr nx)) (\<lambda>new_x_bits.
         bindH (liftE (logical_and z2s x1s)) (\<lambda>z2x1.
         bindH (liftE (logical_and z1s x1s)) (\<lambda>z1x1.
         bindH (liftE (logical_and z2s x2s)) (\<lambda>z2x2.
         bindH (liftE (logical_and nz nx)) (\<lambda>z3x3.
           let w = (2 * np_sum z2x1 + np_sum z1x1 + np_sum z2x2 - np_sum z3x3) mod 4;
               phase = (- \<i>) ^ nat w
           in bindH (PauliString_init_h new_z_bits new_x_bits) (\<lambda>p.
                returnH (p, phase))))))))))))))))))"

subsection \<open>LinearCombinaisonPauliString instances\<close>

text \<open>
  \<open>__init__\<close> takes the two sequences, checks them, and stores \<open>np.array\<close> copies of
  both in the new instance.
\<close>

definition slot_len_h :: "ref option \<Rightarrow> nat prog" where
  "slot_len_h slot = bindH (load_slot slot) PauliString_len_h"

definition LCPS_init_h :: "ref \<Rightarrow> ref \<Rightarrow> ref prog" where
  "LCPS_init_h coefs_arg pauli_strings_arg =
     bindH (load_CArr coefs_arg) (\<lambda>cs.
     bindH (load_OArr pauli_strings_arg) (\<lambda>slots.
       if length cs \<noteq> length slots then raiseH ValueError
       else
         bindH (liftE (getitem slots 0)) (\<lambda>first.
         bindH (slot_len_h first) (\<lambda>nq.
         bindH (foldH (\<lambda>pauli u. bindH (slot_len_h pauli) (\<lambda>l.
                         if l \<noteq> nq then raiseH ValueError else returnH u)) slots ()) (\<lambda>u.
         bindH (alloc (CArr cs)) (\<lambda>coefs_r.
         bindH (alloc (OArr slots)) (\<lambda>pauli_strings_r.
           alloc (LCobj coefs_r pauli_strings_r (length slots) nq))))))))"

definition LCPS_len_h :: "ref \<Rightarrow> nat prog" where
  "LCPS_len_h self =
     bindH (load_LC self) (\<lambda>(c, p, nt, nq). bindH (load_OArr p) (\<lambda>slots. returnH (length slots)))"

definition LCPS_getitem_h :: "ref \<Rightarrow> key \<Rightarrow> ref prog" where
  "LCPS_getitem_h self k =
     bindH (load_LC self) (\<lambda>(c, p, nt, nq).
     bindH (load_CArr c) (\<lambda>cs.
     bindH (liftE (index_array cs k)) (\<lambda>sel_coefs.
     bindH (alloc (CArr sel_coefs)) (\<lambda>new_coefs.
     bindH (load_OArr p) (\<lambda>slots.
     bindH (liftE (index_array slots k)) (\<lambda>sel_slots.
     bindH (alloc (OArr sel_slots)) (\<lambda>new_pauli_strings.
       LCPS_init_h new_coefs new_pauli_strings)))))))"

definition add_pauli_string_linear_combinaison_h :: "ref \<Rightarrow> ref \<Rightarrow> ref prog" where
  "add_pauli_string_linear_combinaison_h self other =
     bindH (load_LC self) (\<lambda>(c1, p1, nt1, nq1).
     bindH (load_LC other) (\<lambda>(c2, p2, nt2, nq2).
       if nq1 \<noteq> nq2 then raiseH ValueError
       else
         bindH (load_CArr c1) (\<lambda>cs1.
         bindH (load_CArr c2) (\<lambda>cs2.
         bindH (alloc (CArr (cs1 @ cs2))) (\<lambda>new_coefs.
         bindH (load_OArr p1) (\<lambda>s1.
         bindH (load_OArr p2) (\<lambda>s2.
         bindH (alloc (OArr (s1 @ s2))) (\<lambda>new_pauli_strings.
           LCPS_init_h new_coefs new_pauli_strings))))))))"

text \<open>
  The body of the double loop of \<open>mul_linear_combinaison_pauli_string\<close>: two item
  assignments, into the two arrays that \<open>np.zeros\<close> allocated.
\<close>

definition mul_body_h :: "ref \<Rightarrow> ref \<Rightarrow> ref \<Rightarrow> ref \<Rightarrow> nat \<Rightarrow> nat \<Rightarrow> unit prog" where
  "mul_body_h self other new_coefs new_pauli_strings i j =
     bindH (load_LC self) (\<lambda>(c1, p1, nt1, nq1).
     bindH (load_LC other) (\<lambda>(c2, p2, nt2, nq2).
     bindH (load_OArr p1) (\<lambda>s1.
     bindH (liftE (getitem s1 i)) (\<lambda>slot_i.
     bindH (load_slot slot_i) (\<lambda>pi.
     bindH (load_OArr p2) (\<lambda>s2.
     bindH (liftE (getitem s2 j)) (\<lambda>slot_j.
     bindH (load_slot slot_j) (\<lambda>pj.
     bindH (mul_pauli_string_h pi pj) (\<lambda>(prod, phase).
     bindH (load_OArr new_pauli_strings) (\<lambda>cur_ps.
     bindH (liftE (setitem cur_ps (i * nt2 + j) (Some prod))) (\<lambda>upd_ps.
     bindH (store new_pauli_strings (OArr upd_ps)) (\<lambda>u.
     bindH (load_CArr c1) (\<lambda>cs1.
     bindH (liftE (getitem cs1 i)) (\<lambda>ci.
     bindH (load_CArr c2) (\<lambda>cs2.
     bindH (liftE (getitem cs2 j)) (\<lambda>cj.
     bindH (load_CArr new_coefs) (\<lambda>cur_cs.
     bindH (liftE (setitem cur_cs (i * nt2 + j) (ci * cj * phase))) (\<lambda>upd_cs.
       store new_coefs (CArr upd_cs)))))))))))))))))))"

definition mul_linear_combinaison_pauli_string_h :: "ref \<Rightarrow> ref \<Rightarrow> ref prog" where
  "mul_linear_combinaison_pauli_string_h self other =
     bindH (load_LC self) (\<lambda>(c1, p1, nt1, nq1).
     bindH (load_LC other) (\<lambda>(c2, p2, nt2, nq2).
       if nq1 \<noteq> nq2 then raiseH ValueError
       else
         bindH (LCPS_len_h self) (\<lambda>l1.
         bindH (LCPS_len_h other) (\<lambda>l2.
         bindH (alloc (CArr (replicate (l1 * l2) 0))) (\<lambda>new_coefs.
         bindH (alloc (OArr (replicate (l1 * l2) None))) (\<lambda>new_pauli_strings.
         bindH (foldH (\<lambda>i. foldH (\<lambda>j u. mul_body_h self other new_coefs new_pauli_strings i j)
                                  [0..<nt2])
                  [0..<nt1] ()) (\<lambda>u.
           LCPS_init_h new_coefs new_pauli_strings)))))))"

text \<open>
  \<open>mul_coef\<close>: the factor is a number, a reference to an array, or a reference to a
  Python list of numbers; the constructor receives the receiver's own array of
  PauliStrings.
\<close>

datatype factor_h = ScalarH complex | NdArrayH ref | PySeqH ref

definition mul_coef_h :: "ref \<Rightarrow> factor_h \<Rightarrow> ref prog" where
  "mul_coef_h self other =
     bindH (load_LC self) (\<lambda>(c, p, nt, nq).
       case other of
         NdArrayH a \<Rightarrow>
           bindH (load_CArr a) (\<lambda>arr.
           bindH (LCPS_len_h self) (\<lambda>l.
             if length arr \<noteq> l then raiseH ValueError
             else
               bindH (load_CArr c) (\<lambda>cs.
               bindH (liftE (broadcast2 (\<lambda>a b. a * b) cs arr)) (\<lambda>prods.
               bindH (alloc (CArr prods)) (\<lambda>new_coefs.
                 LCPS_init_h new_coefs p)))))
       | PySeqH a \<Rightarrow>
           bindH (load_PyList a) (\<lambda>xs.
           bindH (load_CArr c) (\<lambda>cs.
           bindH (liftE (broadcast2 (\<lambda>a b. a * b) cs xs)) (\<lambda>prods.
           bindH (alloc (CArr prods)) (\<lambda>new_coefs.
             LCPS_init_h new_coefs p))))
       | ScalarH s \<Rightarrow>
           bindH (load_CArr c) (\<lambda>cs.
           bindH (alloc (CArr (map (\<lambda>a. a * s) cs))) (\<lambda>new_coefs.
             LCPS_init_h new_coefs p)))"

definition LCPS_to_zx_bits_h :: "ref \<Rightarrow> ref prog" where
  "LCPS_to_zx_bits_h self =
     bindH (load_LC self) (\<lambda>(c, p, nt, nq).
     bindH (LCPS_len_h self) (\<lambda>l.
     bindH (alloc (BTab (replicate l (replicate (2 * nq) False)))) (\<lambda>zx_bits.
     bindH (load_OArr p) (\<lambda>slots.
     bindH (foldH (\<lambda>(i, slot) u.
                bindH (load_slot slot) (\<lambda>ps.
                bindH (to_zx_bits_h ps) (\<lambda>row_r.
                bindH (load_BArr row_r) (\<lambda>row.
                bindH (load_BTab zx_bits) (\<lambda>cur.
                bindH (liftE (assign_row cur i row)) (\<lambda>upd.
                  store zx_bits (BTab upd)))))))
              (enumerate 0 slots) ()) (\<lambda>u.
       returnH zx_bits)))))"

definition combine_h :: "ref \<Rightarrow> ref prog" where
  "combine_h self =
     bindH (LCPS_to_zx_bits_h self) (\<lambda>old_r.
     bindH (load_BTab old_r) (\<lambda>old_pauli_strings.
     bindH (alloc (BTab (np_unique_rows old_pauli_strings))) (\<lambda>new_zx_r.
     bindH (load_BTab new_zx_r) (\<lambda>new_pauli_strings_zx.
     bindH (mapH from_zx_bits_h new_pauli_strings_zx) (\<lambda>ps.
     bindH (alloc (OArr (map Some ps))) (\<lambda>new_pauli_strings.
     bindH (load_LC self) (\<lambda>(c, p, nt, nq).
     bindH (load_CArr c) (\<lambda>cs.
     bindH (liftE (mapE (\<lambda>u. bindE (index_array cs
                                   (BoolMask (map (\<lambda>row. row = u) old_pauli_strings)))
                           (\<lambda>sel. Inr (py_sum sel)))
                    new_pauli_strings_zx)) (\<lambda>totals.
     bindH (alloc (CArr totals)) (\<lambda>new_coefs.
       LCPS_init_h new_coefs new_pauli_strings))))))))))"

definition apply_threshold_h :: "ref \<Rightarrow> real \<Rightarrow> ref prog" where
  "apply_threshold_h self threshold =
     bindH (load_LC self) (\<lambda>(c, p, nt, nq).
     bindH (load_CArr c) (\<lambda>cs.
       LCPS_getitem_h self (BoolMask (map (\<lambda>c. cmod c \<ge> threshold) cs))))"

definition sort_lcps_h :: "ref \<Rightarrow> ref prog" where
  "sort_lcps_h self =
     bindH (LCPS_to_zx_bits_h self) (\<lambda>table_r.
     bindH (load_BTab table_r) (\<lambda>table.
       let order = np_argsort (map (\<lambda>bitstring. map bit_char (rev bitstring)) table) in
       bindH (load_LC self) (\<lambda>(c, p, nt, nq).
       bindH (load_CArr c) (\<lambda>cs.
       bindH (liftE (mapE (getitem cs) order)) (\<lambda>sel_coefs.
       bindH (alloc (CArr sel_coefs)) (\<lambda>new_coefs.
       bindH (load_OArr p) (\<lambda>slots.
       bindH (liftE (mapE (getitem slots) order)) (\<lambda>sel_slots.
       bindH (alloc (OArr sel_slots)) (\<lambda>new_pauli_strings.
         LCPS_init_h new_coefs new_pauli_strings)))))))))"

subsection \<open>The frame of a program\<close>

text \<open>
  \<open>frame h0 m Q\<close>: started in any store that extends \<open>h0\<close>, the program \<open>m\<close> ends,
  with a result or an exception, in a store that still extends \<open>h0\<close> (no object of
  \<open>h0\<close> was replaced), and a result \<open>v\<close> with the final store \<open>h'\<close> satisfies
  \<open>Q v h'\<close>.
\<close>

definition frame :: "heap \<Rightarrow> 'a prog \<Rightarrow> ('a \<Rightarrow> heap \<Rightarrow> bool) \<Rightarrow> bool" where
  "frame h0 m Q =
     (\<forall>h. prefix h0 h \<longrightarrow>
        (case m h of (res, h') \<Rightarrow>
           prefix h0 h' \<and> (case res of Inl e \<Rightarrow> True | Inr v \<Rightarrow> Q v h')))"

text \<open>
  A reference \<open>r\<close> returned in the store \<open>h'\<close> is a new instance with respect to the
  store \<open>h\<close> before the call: it did not exist in \<open>h\<close>, it holds a
  LinearCombinaisonPauliString, and neither of that instance's two arrays existed in
  \<open>h\<close>.
\<close>

definition new_instance :: "heap \<Rightarrow> heap \<Rightarrow> ref \<Rightarrow> bool" where
  "new_instance h h' r =
     (length h \<le> r \<and> r < length h' \<and>
      (case h' ! r of LCobj c p nt nq \<Rightarrow> length h \<le> c \<and> length h \<le> p | _ \<Rightarrow> False))"

text \<open>
  The value an instance stands for in a store: the PauliString whose bit arrays a
  \<open>PSobj\<close> refers to, and the linear combination whose coefficient array and
  PauliStrings an \<open>LCobj\<close> refers to.  \<open>None\<close> when a reference on the way does not hold
  an object of the expected class.
\<close>

definition read_CArr :: "heap \<Rightarrow> ref \<Rightarrow> complex list option" where
  "read_CArr h r =
     (if r < length h then (case h ! r of CArr cs \<Rightarrow> Some cs | _ \<Rightarrow> None) else None)"

definition read_BArr :: "heap \<Rightarrow> ref \<Rightarrow> bool list option" where
  "read_BArr h r =
     (if r < length h then (case h ! r of BArr bs \<Rightarrow> Some bs | _ \<Rightarrow> None) else None)"

definition read_OArr :: "heap \<Rightarrow> ref \<Rightarrow> ref option list option" where
  "read_OArr h r =
     (if r < length h then (case h ! r of OArr slots \<Rightarrow> Some slots | _ \<Rightarrow> None) else None)"

definition read_PS :: "heap \<Rightarrow> ref \<Rightarrow> PauliString option" where
  "read_PS h r =
     (if r < length h then
        (case h ! r of
           PSobj z x \<Rightarrow>
             (case read_BArr h z of None \<Rightarrow> None
              | Some zs \<Rightarrow>
                 (case read_BArr h x of None \<Rightarrow> None
                  | Some xs \<Rightarrow> Some \<lparr>z_bits = zs, x_bits = xs\<rparr>))
         | _ \<Rightarrow> None)
      else None)"

definition read_slot :: "heap \<Rightarrow> ref option \<Rightarrow> PauliString option" where
  "read_slot h slot = (case slot of None \<Rightarrow> None | Some p \<Rightarrow> read_PS h p)"

definition read_LC :: "heap \<Rightarrow> ref \<Rightarrow> LinearCombinaisonPauliString option" where
  "read_LC h r =
     (if r < length h then
        (case h ! r of
           LCobj c p nt nq \<Rightarrow>
             (case read_CArr h c of None \<Rightarrow> None
              | Some cs \<Rightarrow>
                 (case read_OArr h p of None \<Rightarrow> None
                  | Some slots \<Rightarrow>
                     (case those (map (read_slot h) slots) of None \<Rightarrow> None
                      | Some ps \<Rightarrow>
                          Some \<lparr>coefs = cs, pauli_strings = ps, n_terms = nt, n_qubits = nq\<rparr>)))
         | _ \<Rightarrow> None)
      else None)"

text \<open>
  What the claim asks of an operation \<open>m\<close> run in the store \<open>h\<close>: every object of \<open>h\<close> is
  still in place afterwards, so every instance of \<open>h\<close> stands for the coefficients and
  PauliStrings it stood for, and a returned reference is a new instance.
\<close>

definition leaves_operands :: "heap \<Rightarrow> ref prog \<Rightarrow> bool" where
  "leaves_operands h m =
     (case m h of (res, h') \<Rightarrow>
        prefix h h'
        \<and> (\<forall>a A. read_LC h a = Some A \<longrightarrow> read_LC h' a = Some A)
        \<and> (case res of Inl e \<Rightarrow> True | Inr r \<Rightarrow> new_instance h h' r))"

section \<open>Basic facts about the primitives\<close>

lemma bindE_Inr [simp]: "bindE (Inr v) f = f v"
  by (simp add: bindE_def)

lemma bindE_Inl [simp]: "bindE (Inl e) f = Inl e"
  by (simp add: bindE_def)

lemma broadcast2_same: "length xs = length ys \<Longrightarrow> broadcast2 f xs ys = Inr (map2 f xs ys)"
  by (simp add: broadcast2_def)

lemma mapE_Inr: "(\<And>a. a \<in> set as \<Longrightarrow> f a = Inr (g a)) \<Longrightarrow> mapE f as = Inr (map g as)"
  by (induction as) simp_all

lemma map2_same: "map2 f (map a xs) (map b xs) = map (\<lambda>c. f (a c) (b c)) xs"
  by (induction xs) simp_all

lemma np_sum_nth: "np_sum bs = (\<Sum>i<length bs. if bs ! i then 1 else 0)"
  unfolding np_sum_def by (simp add: sum_list_sum_nth atLeast0LessThan)

lemma np_sum_map2:
  "length xs = length ys \<Longrightarrow>
   np_sum (map2 f xs ys) = (\<Sum>i<length xs. if f (xs ! i) (ys ! i) then 1 else 0)"
  by (simp add: np_sum_nth)

lemma upper_values:
  "upper CHR ''I'' = CHR ''I''" "upper CHR ''X'' = CHR ''X''"
  "upper CHR ''Y'' = CHR ''Y''" "upper CHR ''Z'' = CHR ''Z''"
  "upper CHR ''i'' = CHR ''I''" "upper CHR ''x'' = CHR ''X''"
  "upper CHR ''y'' = CHR ''Y''" "upper CHR ''z'' = CHR ''Z''"
  by code_simp+

section \<open>The constructors' invariants\<close>

lemma PauliString_init_wf: "PauliString_init z x = Inr p \<Longrightarrow> wf_PauliString p"
  by (auto simp: PauliString_init_def wf_PauliString_def split: if_splits)

lemma wf_PauliString_iff: "wf_PauliString p \<longleftrightarrow> length (z_bits p) = length (x_bits p)"
  by (simp add: PauliString_init_def wf_PauliString_def)

lemma getitem_0: "getitem ps 0 = (if ps = [] then Inl IndexError else Inr (ps ! 0))"
  by (simp add: getitem_def)

lemma LCPS_init_Inr:
  assumes "length cs = length ps" and "ps \<noteq> []"
    and "\<forall>p \<in> set ps. PauliString_len p = nq" and "nq = PauliString_len (ps ! 0)"
  shows "LCPS_init cs ps = Inr \<lparr>coefs = cs, pauli_strings = ps, n_terms = length ps, n_qubits = nq\<rparr>"
proof -
  have "\<not> list_ex (\<lambda>pauli. PauliString_len pauli \<noteq> PauliString_len (ps ! 0)) ps"
    unfolding list_ex_iff using assms(3,4) by blast
  with assms(1,2,4) show ?thesis
    by (simp add: LCPS_init_def getitem_0 Let_def)
qed

lemma LCPS_init_InrD:
  assumes "LCPS_init cs ps = Inr L"
  shows "length cs = length ps" and "ps \<noteq> []"
    and "\<And>p. p \<in> set ps \<Longrightarrow> PauliString_len p = n_qubits L"
    and "coefs L = cs" and "pauli_strings L = ps" and "n_terms L = length ps"
    and "n_qubits L = PauliString_len (ps ! 0)"
proof -
  from assms show 1: "length cs = length ps"
    by (simp add: LCPS_init_def split: if_splits)
  from assms 1 show 2: "ps \<noteq> []"
    by (simp add: LCPS_init_def getitem_0 split: if_splits)
  from assms 1 2 have 3: "\<not> list_ex (\<lambda>pauli. PauliString_len pauli \<noteq> PauliString_len (ps ! 0)) ps"
    and L: "L = \<lparr>coefs = cs, pauli_strings = ps, n_terms = length ps,
          n_qubits = PauliString_len (ps ! 0)\<rparr>"
    by (simp_all add: LCPS_init_def getitem_0 Let_def split: if_splits)
  show "coefs L = cs" "pauli_strings L = ps" "n_terms L = length ps"
    and nq: "n_qubits L = PauliString_len (ps ! 0)"
    by (simp_all add: L)
  show "PauliString_len p = n_qubits L" if "p \<in> set ps" for p
    using 3 that unfolding list_ex_iff nq by blast
qed

lemma wf_LCPS_D:
  assumes "wf_LCPS L"
  shows "length (coefs L) = length (pauli_strings L)"
    and "pauli_strings L \<noteq> []"
    and "n_terms L = length (pauli_strings L)"
    and "\<And>p. p \<in> set (pauli_strings L) \<Longrightarrow> PauliString_len p = n_qubits L"
    and "\<And>p. p \<in> set (pauli_strings L) \<Longrightarrow> length (z_bits p) = n_qubits L"
    and "\<And>p. p \<in> set (pauli_strings L) \<Longrightarrow> length (x_bits p) = n_qubits L"
proof -
  from assms have i: "LCPS_init (coefs L) (pauli_strings L) = Inr L"
    and w: "\<And>p. p \<in> set (pauli_strings L) \<Longrightarrow> wf_PauliString p"
    by (simp_all add: wf_LCPS_def list_all_iff)
  note d = LCPS_init_InrD [OF i]
  show "length (coefs L) = length (pauli_strings L)" by (rule d(1))
  show "pauli_strings L \<noteq> []" by (rule d(2))
  show "n_terms L = length (pauli_strings L)" by (rule d(6))
  show len: "PauliString_len p = n_qubits L" if "p \<in> set (pauli_strings L)" for p
    using that by (rule d(3))
  show z: "length (z_bits p) = n_qubits L" if "p \<in> set (pauli_strings L)" for p
    using len [OF that] by (simp add: PauliString_len_def)
  show "length (x_bits p) = n_qubits L" if "p \<in> set (pauli_strings L)" for p
    using z [OF that] w [OF that] by (simp add: wf_PauliString_iff)
qed

lemma LCPS_init_wf:
  assumes "LCPS_init cs ps = Inr L" and "list_all wf_PauliString ps"
  shows "wf_LCPS L"
  unfolding wf_LCPS_def using assms LCPS_init_InrD(4,5) [OF assms(1)] by simp


section \<open>Product of two PauliStrings\<close>

text \<open>
  Claim C1.  For PauliStrings \<open>p1\<close>, \<open>p2\<close> of equal qubit count, \<open>mul_pauli_string\<close>
  returns the PauliString whose z bits and x bits are the elementwise exclusive or of the
  operands', with the phase \<open>(-i)^w\<close>,
  \<open>w = (2 \<Sum> z2 x1 + \<Sum> z1 x1 + \<Sum> z2 x2 - \<Sum> new_z new_x) mod 4\<close>.  On one qubit:
  \<open>X*Y = iZ\<close>, \<open>Y*Z = iX\<close>, \<open>Z*X = iY\<close>, and \<open>X*X\<close>, \<open>Y*Y\<close>, \<open>Z*Z\<close> are \<open>I\<close> with
  phase \<open>1\<close>.
\<close>

theorem mul_pauli_string_phase:
  assumes "PauliString_init z1 x1 = Inr p1" and "PauliString_init z2 x2 = Inr p2"
    and "PauliString_len p1 = PauliString_len p2"
  shows "mul_pauli_string p1 p2 =
      Inr (\<lparr>z_bits = map2 (\<lambda>a b. a \<noteq> b) z1 z2, x_bits = map2 (\<lambda>a b. a \<noteq> b) x1 x2\<rparr>,
           (- \<i>) ^ nat ((2 * (\<Sum>i<length z1. if z2 ! i \<and> x1 ! i then 1 else 0)
                          + (\<Sum>i<length z1. if z1 ! i \<and> x1 ! i then 1 else 0)
                          + (\<Sum>i<length z1. if z2 ! i \<and> x2 ! i then 1 else 0)
                          - (\<Sum>i<length z1. if (z1 ! i \<noteq> z2 ! i) \<and> (x1 ! i \<noteq> x2 ! i)
                                               then 1 else 0)) mod 4))
    \<and> bindE (from_str ''X'') (\<lambda>a. bindE (from_str ''Y'') (mul_pauli_string a))
        = Inr (\<lparr>z_bits = [True], x_bits = [False]\<rparr>, \<i>)
    \<and> bindE (from_str ''Y'') (\<lambda>a. bindE (from_str ''Z'') (mul_pauli_string a))
        = Inr (\<lparr>z_bits = [False], x_bits = [True]\<rparr>, \<i>)
    \<and> bindE (from_str ''Z'') (\<lambda>a. bindE (from_str ''X'') (mul_pauli_string a))
        = Inr (\<lparr>z_bits = [True], x_bits = [True]\<rparr>, \<i>)
    \<and> bindE (from_str ''X'') (\<lambda>a. bindE (from_str ''X'') (mul_pauli_string a))
        = Inr (\<lparr>z_bits = [False], x_bits = [False]\<rparr>, 1)
    \<and> bindE (from_str ''Y'') (\<lambda>a. bindE (from_str ''Y'') (mul_pauli_string a))
        = Inr (\<lparr>z_bits = [False], x_bits = [False]\<rparr>, 1)
    \<and> bindE (from_str ''Z'') (\<lambda>a. bindE (from_str ''Z'') (mul_pauli_string a))
        = Inr (\<lparr>z_bits = [False], x_bits = [False]\<rparr>, 1)"
proof -
  from assms have l: "length z1 = length x1" "length z2 = length x2" "length z1 = length z2"
    and p: "p1 = \<lparr>z_bits = z1, x_bits = x1\<rparr>" "p2 = \<lparr>z_bits = z2, x_bits = x2\<rparr>"
    by (auto simp: PauliString_init_def PauliString_len_def split: if_splits)
  have general: "mul_pauli_string p1 p2 =
      Inr (\<lparr>z_bits = map2 (\<lambda>a b. a \<noteq> b) z1 z2, x_bits = map2 (\<lambda>a b. a \<noteq> b) x1 x2\<rparr>,
           (- \<i>) ^ nat ((2 * (\<Sum>i<length z1. if z2 ! i \<and> x1 ! i then 1 else 0)
                          + (\<Sum>i<length z1. if z1 ! i \<and> x1 ! i then 1 else 0)
                          + (\<Sum>i<length z1. if z2 ! i \<and> x2 ! i then 1 else 0)
                          - (\<Sum>i<length z1. if (z1 ! i \<noteq> z2 ! i) \<and> (x1 ! i \<noteq> x2 ! i)
                                               then 1 else 0)) mod 4))"
    using l unfolding p mul_pauli_string_def PauliString_len_def logical_xor_def logical_and_def
    by (simp add: broadcast2_same np_sum_map2 PauliString_init_def Let_def)
  note ev = from_str_def upper_values PauliString_init_def mul_pauli_string_def
    logical_xor_def logical_and_def broadcast2_def np_sum_def PauliString_len_def
    power3_eq_cube
  have xy: "bindE (from_str ''X'') (\<lambda>a. bindE (from_str ''Y'') (mul_pauli_string a))
        = Inr (\<lparr>z_bits = [True], x_bits = [False]\<rparr>, \<i>)"
    by (simp add: ev)
  have yz: "bindE (from_str ''Y'') (\<lambda>a. bindE (from_str ''Z'') (mul_pauli_string a))
        = Inr (\<lparr>z_bits = [False], x_bits = [True]\<rparr>, \<i>)"
    by (simp add: ev)
  have zx: "bindE (from_str ''Z'') (\<lambda>a. bindE (from_str ''X'') (mul_pauli_string a))
        = Inr (\<lparr>z_bits = [True], x_bits = [True]\<rparr>, \<i>)"
    by (simp add: ev)
  have xx: "bindE (from_str ''X'') (\<lambda>a. bindE (from_str ''X'') (mul_pauli_string a))
        = Inr (\<lparr>z_bits = [False], x_bits = [False]\<rparr>, 1)"
    by (simp add: ev)
  have yy: "bindE (from_str ''Y'') (\<lambda>a. bindE (from_str ''Y'') (mul_pauli_string a))
        = Inr (\<lparr>z_bits = [False], x_bits = [False]\<rparr>, 1)"
    by (simp add: ev)
  have zz: "bindE (from_str ''Z'') (\<lambda>a. bindE (from_str ''Z'') (mul_pauli_string a))
        = Inr (\<lparr>z_bits = [False], x_bits = [False]\<rparr>, 1)"
    by (simp add: ev)
  from general xy yz zx xx yy zz show ?thesis by blast
qed


theorem mul_pauli_string_phase_witness:
  "PauliString_init [True, False] [False, True] = Inr \<lparr>z_bits = [True, False], x_bits = [False, True]\<rparr>
   \<and> PauliString_init [True, True] [True, True] = Inr \<lparr>z_bits = [True, True], x_bits = [True, True]\<rparr>
   \<and> mul_pauli_string \<lparr>z_bits = [True, False], x_bits = [False, True]\<rparr>
        \<lparr>z_bits = [True, True], x_bits = [True, True]\<rparr>
      = Inr (\<lparr>z_bits = [False, True], x_bits = [True, False]\<rparr>, 1)"
proof -
  have a: "PauliString_init [True, False] [False, True]
      = Inr \<lparr>z_bits = [True, False], x_bits = [False, True]\<rparr>"
    by (simp add: PauliString_init_def)
  have b: "PauliString_init [True, True] [True, True]
      = Inr \<lparr>z_bits = [True, True], x_bits = [True, True]\<rparr>"
    by (simp add: PauliString_init_def)
  have c: "PauliString_len \<lparr>z_bits = [True, False], x_bits = [False, True]\<rparr>
      = PauliString_len \<lparr>z_bits = [True, True], x_bits = [True, True]\<rparr>"
    by (simp add: PauliString_len_def)
  have s: "{..<2::nat} = {0, 1}" by auto
  from mul_pauli_string_phase [OF a b c] a b show ?thesis
    by (simp add: s)
qed

section \<open>Round trips of the encodings\<close>

lemma from_zx_bits_to_zx_bits: "wf_PauliString p \<Longrightarrow> from_zx_bits (to_zx_bits p) = Inr p"
  by (simp add: wf_PauliString_iff from_zx_bits_def to_zx_bits_def PauliString_init_def)

lemma upper_label:
  "c \<in> set ''IXYZixyz'' \<Longrightarrow> upper c \<in> {CHR ''I'', CHR ''X'', CHR ''Y'', CHR ''Z''}"
  by (auto simp: upper_values)

lemma upper_upper: "c \<in> set ''IXYZixyz'' \<Longrightarrow> upper (upper c) = upper c"
  by (auto simp: upper_values)

lemma from_str_loop_ok:
  "\<forall>c \<in> set s. c \<in> set ''IXYZixyz'' \<Longrightarrow>
   from_str_loop s z x =
     Inr (z @ map (\<lambda>c. upper c = CHR ''Y'' \<or> upper c = CHR ''Z'') s,
          x @ map (\<lambda>c. upper c = CHR ''X'' \<or> upper c = CHR ''Y'') s)"
proof (induction s arbitrary: z x)
  case Nil
  then show ?case by simp
next
  case (Cons c s)
  from Cons.prems have s: "\<forall>c \<in> set s. c \<in> set ''IXYZixyz''" and c: "c \<in> set ''IXYZixyz''"
    by simp_all
  from upper_label [OF c] show ?case
    by (auto simp: Cons.IH [OF s])
qed

lemma from_str_ok:
  "\<forall>c \<in> set s. c \<in> set ''IXYZixyz'' \<Longrightarrow>
   from_str s = Inr \<lparr>z_bits = map (\<lambda>c. upper c = CHR ''Y'' \<or> upper c = CHR ''Z'') (rev s),
                     x_bits = map (\<lambda>c. upper c = CHR ''X'' \<or> upper c = CHR ''Y'') (rev s)\<rparr>"
  by (simp add: from_str_def from_str_loop_ok PauliString_init_def)

lemma label_lookup:
  "upper c \<in> {CHR ''I'', CHR ''X'', CHR ''Y'', CHR ''Z''} \<Longrightarrow>
   getitem pauli_labels ((if upper c = CHR ''Y'' \<or> upper c = CHR ''Z'' then 1 else 0)
        + 2 * (if upper c = CHR ''X'' \<or> upper c = CHR ''Y'' then 1 else 0)) = Inr (upper c)"
  by (auto simp: getitem_def pauli_labels_def)

lemma labels_of_choices:
  "\<forall>c \<in> set s. c \<in> set ''IXYZixyz'' \<Longrightarrow>
   mapE (getitem pauli_labels)
     (map (\<lambda>c. (if upper c = CHR ''Y'' \<or> upper c = CHR ''Z'' then 1 else 0)
              + 2 * (if upper c = CHR ''X'' \<or> upper c = CHR ''Y'' then 1 else 0)) s)
   = Inr (map upper s)"
proof (induction s)
  case Nil
  then show ?case by simp
next
  case (Cons c s)
  from Cons.prems have s: "\<forall>c \<in> set s. c \<in> set ''IXYZixyz''" and c: "c \<in> set ''IXYZixyz''"
    by simp_all
  show ?case
    using label_lookup [OF upper_label [OF c]] Cons.IH [OF s] by simp
qed

lemma str_from_str:
  assumes "\<forall>c \<in> set s. c \<in> set ''IXYZixyz''" and "from_str s = Inr p"
  shows "PauliString_str p = Inr (map upper s)"
proof -
  have p: "p = \<lparr>z_bits = map (\<lambda>c. upper c = CHR ''Y'' \<or> upper c = CHR ''Z'') (rev s),
                 x_bits = map (\<lambda>c. upper c = CHR ''X'' \<or> upper c = CHR ''Y'') (rev s)\<rparr>"
    using assms by (simp add: from_str_ok)
  from labels_of_choices [OF assms(1)] show ?thesis
    unfolding p PauliString_str_def
    by (simp add: broadcast2_same rev_map map2_same)
qed

text \<open>
  Claim C5.  \<open>from_zx_bits (to_zx_bits p)\<close> is \<open>p\<close> for every PauliString the constructor
  accepted, and for every label string \<open>s\<close> over \<open>I, X, Y, Z\<close> in either case, parsing the
  printed form of \<open>from_str s\<close> gives \<open>from_str s\<close> again.
\<close>

theorem encodings_round_trip:
  "(PauliString_init z x = Inr p \<longrightarrow> from_zx_bits (to_zx_bits p) = Inr p)
   \<and> ((\<forall>c \<in> set s. c \<in> set ''IXYZixyz'') \<longrightarrow>
        (\<exists>q. from_str s = Inr q \<and> bindE (PauliString_str q) from_str = Inr q))"
proof (intro conjI impI)
  assume "PauliString_init z x = Inr p"
  then show "from_zx_bits (to_zx_bits p) = Inr p"
    by (intro from_zx_bits_to_zx_bits PauliString_init_wf)
next
  assume ok: "\<forall>c \<in> set s. c \<in> set ''IXYZixyz''"
  let ?q = "\<lparr>z_bits = map (\<lambda>c. upper c = CHR ''Y'' \<or> upper c = CHR ''Z'') (rev s),
              x_bits = map (\<lambda>c. upper c = CHR ''X'' \<or> upper c = CHR ''Y'') (rev s)\<rparr>"
  have 1: "from_str s = Inr ?q" using ok by (rule from_str_ok)
  have 2: "PauliString_str ?q = Inr (map upper s)" using ok 1 by (rule str_from_str)
  have ok': "\<forall>c \<in> set (map upper s). c \<in> set ''IXYZixyz''"
    using ok upper_label by auto
  have 3: "from_str (map upper s) = Inr ?q"
    using ok by (simp add: from_str_ok [OF ok'] rev_map o_def upper_upper cong: map_cong)
  show "\<exists>q. from_str s = Inr q \<and> bindE (PauliString_str q) from_str = Inr q"
    using 1 2 3 by simp
qed

theorem encodings_round_trip_witness:
  "PauliString_init [True, False] [False, True] = Inr \<lparr>z_bits = [True, False], x_bits = [False, True]\<rparr>
   \<and> from_zx_bits (to_zx_bits \<lparr>z_bits = [True, False], x_bits = [False, True]\<rparr>)
       = Inr \<lparr>z_bits = [True, False], x_bits = [False, True]\<rparr>
   \<and> from_str ''xZiY'' = Inr \<lparr>z_bits = [True, False, True, False], x_bits = [True, False, False, True]\<rparr>
   \<and> PauliString_str \<lparr>z_bits = [True, False, True, False], x_bits = [True, False, False, True]\<rparr>
       = Inr ''XZIY''
   \<and> from_str ''XZIY'' = Inr \<lparr>z_bits = [True, False, True, False], x_bits = [True, False, False, True]\<rparr>"
proof -
  have a: "PauliString_init [True, False] [False, True]
      = Inr \<lparr>z_bits = [True, False], x_bits = [False, True]\<rparr>"
    by (simp add: PauliString_init_def)
  have b: "\<forall>c \<in> set ''xZiY''. c \<in> set ''IXYZixyz''" by simp
  have c: "from_str ''xZiY'' = Inr \<lparr>z_bits = [True, False, True, False], x_bits = [True, False, False, True]\<rparr>"
    by (simp add: from_str_def upper_values PauliString_init_def)
  have d: "PauliString_str \<lparr>z_bits = [True, False, True, False], x_bits = [True, False, False, True]\<rparr>
       = Inr ''XZIY''"
    by (simp add: PauliString_str_def broadcast2_def getitem_def pauli_labels_def)
  from encodings_round_trip [of "[True, False]" "[False, True]" _ "''xZiY''"] a b c d
  show ?thesis by simp
qed

section \<open>Construction of a linear combination\<close>

text \<open>
  Claim C10.  The constructor fails on empty coefficient and PauliString sequences
  (reading \<open>pauli_strings[0]\<close> raises), and every linear combination it returns has at
  least one term.
\<close>

theorem LCPS_init_nonempty:
  "LCPS_init [] [] = Inl IndexError
   \<and> (LCPS_init cs ps = Inr L \<longrightarrow>
        1 \<le> n_terms L \<and> 1 \<le> length (coefs L) \<and> 1 \<le> length (pauli_strings L))"
proof (intro conjI impI)
  show "LCPS_init [] [] = Inl IndexError"
    by (simp add: LCPS_init_def getitem_def)
next
  assume i: "LCPS_init cs ps = Inr L"
  note d = LCPS_init_InrD [OF i]
  from d(2) have "1 \<le> length ps" by (cases ps) simp_all
  then show "1 \<le> n_terms L" "1 \<le> length (coefs L)" "1 \<le> length (pauli_strings L)"
    using d(1,4,5,6) by simp_all
qed

theorem LCPS_init_nonempty_witness:
  "LCPS_init [2] [\<lparr>z_bits = [True], x_bits = [False]\<rparr>]
     = Inr \<lparr>coefs = [2], pauli_strings = [\<lparr>z_bits = [True], x_bits = [False]\<rparr>],
            n_terms = 1, n_qubits = 1\<rparr>
   \<and> 1 \<le> n_terms \<lparr>coefs = [2], pauli_strings = [\<lparr>z_bits = [True], x_bits = [False]\<rparr>],
            n_terms = 1, n_qubits = 1\<rparr>"
proof -
  have a: "LCPS_init [2] [\<lparr>z_bits = [True], x_bits = [False]\<rparr>]
     = Inr \<lparr>coefs = [2], pauli_strings = [\<lparr>z_bits = [True], x_bits = [False]\<rparr>],
            n_terms = 1, n_qubits = 1\<rparr>"
    by (simp add: LCPS_init_def getitem_def PauliString_len_def)
  from LCPS_init_nonempty [of "[2]" "[\<lparr>z_bits = [True], x_bits = [False]\<rparr>]"] a
  show ?thesis by blast
qed

section \<open>Multiplication by numbers\<close>





section \<open>Cliques\<close>

text \<open>
  Claim C3.  \<open>divide_in_bitwise_commuting_cliques\<close> should return a partition of the terms
  into bitwise commuting groups and never raise \<open>NotImplementedError\<close>.  The body of the
  source is the \<open>raise\<close> statement: on every linear combination the result is that
  exception.
\<close>

theorem divide_in_bitwise_commuting_cliques_raises:
  "divide_in_bitwise_commuting_cliques L = Inl NotImplementedError"
  by (simp add: divide_in_bitwise_commuting_cliques_def)

section \<open>The order that \<open>np_argsort\<close> returns\<close>

text \<open>
  \<open>np_argsort\<close> returns the indices, each once, in an order that sorts the keys, which
  is what \<open>np.argsort\<close> promises; and when the keys are pairwise different there is
  only one such order, so the choice among equal keys, which NumPy's default sort
  leaves open for longer inputs, plays no part.
\<close>

lemma zip_upt_set: "set (zip keys [0..<length keys]) = {(keys ! i, i) | i. i < length keys}"
  by (auto simp: set_zip)

lemma np_argsort_sorts:
  "set (np_argsort keys) = {..<length keys}"
  "distinct (np_argsort keys)"
  "sorted (map (\<lambda>i. keys ! i) (np_argsort keys))"
proof -
  let ?zs = "zip keys [0..<length keys]"
  have mem: "p \<in> set (sort_key fst ?zs) \<Longrightarrow> keys ! snd p = fst p \<and> snd p < length keys" for p
    by (auto simp: zip_upt_set)
  show "set (np_argsort keys) = {..<length keys}"
    by (auto simp: np_argsort_def zip_upt_set image_iff)
  have "distinct ?zs" by (simp add: distinct_zipI2)
  moreover have "inj_on snd (set ?zs)"
    by (auto simp: inj_on_def zip_upt_set)
  ultimately show "distinct (np_argsort keys)"
    by (simp add: np_argsort_def distinct_map)
  have "map (\<lambda>i. keys ! i) (np_argsort keys) = map fst (sort_key fst ?zs)"
    unfolding np_argsort_def map_map by (rule map_cong) (simp_all add: mem)
  then show "sorted (map (\<lambda>i. keys ! i) (np_argsort keys))"
    by (simp add: sorted_sort_key)
qed

lemma argsort_unique:
  assumes "distinct keys"
    and "set order = {..<length keys}" and "distinct order"
    and "sorted (map (\<lambda>i. keys ! i) order)"
  shows "order = np_argsort keys"
proof -
  have inj: "inj_on (\<lambda>i. keys ! i) {..<length keys}"
    using assms(1) by (auto simp: inj_on_def nth_eq_iff_index_eq)
  have d1: "distinct (map (\<lambda>i. keys ! i) order)"
    using assms(2,3) inj by (simp add: distinct_map)
  have d2: "distinct (map (\<lambda>i. keys ! i) (np_argsort keys))"
    using np_argsort_sorts(1,2) [of keys] inj by (simp add: distinct_map)
  have "set (map (\<lambda>i. keys ! i) order) = set (map (\<lambda>i. keys ! i) (np_argsort keys))"
    by (simp add: assms(2) np_argsort_sorts(1))
  with assms(4) d1 np_argsort_sorts(3) [of keys] d2
  have "map (\<lambda>i. keys ! i) order = map (\<lambda>i. keys ! i) (np_argsort keys)"
    by (intro sorted_distinct_set_unique)
  moreover have "inj_on (\<lambda>i. keys ! i) (set order \<union> set (np_argsort keys))"
    using inj by (simp add: assms(2) np_argsort_sorts(1))
  ultimately show ?thesis by (rule map_inj_on)
qed

section \<open>Sorting\<close>

text \<open>
  Claim C4.  The docstring of \<open>sort\<close> promises the order \<open>I < X < Y < Z\<close>.  On the one-qubit
  combination \<open>1 I + 2 X + 3 Y + 4 Z\<close> the keys are \<open>00\<close>, \<open>10\<close>, \<open>11\<close>, \<open>01\<close> (x bit, then
  z bit), and the source returns the terms in the order \<open>I, Z, X, Y\<close>.
\<close>

theorem sort_lcps_one_qubit:
  "mapE from_str [''I'', ''X'', ''Y'', ''Z'']
     = Inr [\<lparr>z_bits = [False], x_bits = [False]\<rparr>, \<lparr>z_bits = [False], x_bits = [True]\<rparr>,
            \<lparr>z_bits = [True], x_bits = [True]\<rparr>, \<lparr>z_bits = [True], x_bits = [False]\<rparr>]
   \<and> bindE (mapE from_str [''I'', ''X'', ''Y'', ''Z''])
        (\<lambda>ps. bindE (LCPS_init [1, 2, 3, 4] ps) sort_lcps)
     = Inr \<lparr>coefs = [1, 4, 2, 3],
            pauli_strings = [\<lparr>z_bits = [False], x_bits = [False]\<rparr>, \<lparr>z_bits = [True], x_bits = [False]\<rparr>,
                             \<lparr>z_bits = [False], x_bits = [True]\<rparr>, \<lparr>z_bits = [True], x_bits = [True]\<rparr>],
            n_terms = 4, n_qubits = 1\<rparr>"
  by (simp add: from_str_def upper_values PauliString_init_def LCPS_init_def getitem_def
      PauliString_len_def sort_lcps_def LCPS_to_zx_bits_def LCPS_len_def assign_row_def
      to_zx_bits_def np_argsort_def bit_char_def)

section \<open>Combining equal PauliStrings: the example\<close>

text \<open>
  Claim C7 says that \<open>combine\<close> on \<open>[(1, XZ), (2, XZ), (3, II)]\<close> yields
  \<open>[(3, XZ), (3, II)]\<close> in that order.  It does not: the rows come out of \<open>np.unique\<close>
  in ascending order, and the all-\<open>False\<close> row of \<open>II\<close> is the smallest.
\<close>

theorem combine_example_order_refuted:
  "mapE from_str [''XZ'', ''XZ'', ''II'']
     = Inr [\<lparr>z_bits = [True, False], x_bits = [False, True]\<rparr>,
            \<lparr>z_bits = [True, False], x_bits = [False, True]\<rparr>,
            \<lparr>z_bits = [False, False], x_bits = [False, False]\<rparr>]
   \<and> bindE (mapE from_str [''XZ'', ''XZ'', ''II'']) (\<lambda>ps. bindE (LCPS_init [1, 2, 3] ps) combine)
     \<noteq> Inr \<lparr>coefs = [3, 3],
            pauli_strings = [\<lparr>z_bits = [True, False], x_bits = [False, True]\<rparr>,
                             \<lparr>z_bits = [False, False], x_bits = [False, False]\<rparr>],
            n_terms = 2, n_qubits = 2\<rparr>"
  by (simp add: from_str_def upper_values PauliString_init_def LCPS_init_def getitem_def
      PauliString_len_def combine_def LCPS_to_zx_bits_def LCPS_len_def assign_row_def to_zx_bits_def
      np_unique_rows_def from_zx_bits_def index_array_def py_sum_def)

text \<open>
  Claim C7, amended: \<open>combine\<close> on \<open>[(1, XZ), (2, XZ), (3, II)]\<close> yields the two terms
  \<open>[(3, II), (3, XZ)]\<close>, in that order.
\<close>

theorem combine_example:
  "bindE (mapE from_str [''XZ'', ''XZ'', ''II'']) (\<lambda>ps. bindE (LCPS_init [1, 2, 3] ps) combine)
     = Inr \<lparr>coefs = [3, 3],
            pauli_strings = [\<lparr>z_bits = [False, False], x_bits = [False, False]\<rparr>,
                             \<lparr>z_bits = [True, False], x_bits = [False, True]\<rparr>],
            n_terms = 2, n_qubits = 2\<rparr>
   \<and> mapE PauliString_str [\<lparr>z_bits = [False, False], x_bits = [False, False]\<rparr>,
                             \<lparr>z_bits = [True, False], x_bits = [False, True]\<rparr>]
     = Inr [''II'', ''XZ'']"
  by (simp add: from_str_def upper_values PauliString_init_def LCPS_init_def getitem_def
      PauliString_len_def combine_def LCPS_to_zx_bits_def LCPS_len_def assign_row_def to_zx_bits_def
      np_unique_rows_def from_zx_bits_def index_array_def py_sum_def
      PauliString_str_def broadcast2_def pauli_labels_def)

section \<open>Loops\<close>

lemma foldE_append: "foldE f (xs @ ys) s = bindE (foldE f xs s) (foldE f ys)"
  by (induction xs arbitrary: s) (simp_all add: bindE_def split: sum.splits)

lemma foldE_upt_invariant:
  assumes "I 0 s0"
    and "\<And>k s. k < n \<Longrightarrow> I k s \<Longrightarrow> \<exists>s'. f k s = Inr s' \<and> I (Suc k) s'"
  shows "\<exists>s'. foldE f [0..<n] s0 = Inr s' \<and> I n s'"
  using assms(2)
proof (induction n)
  case 0
  show ?case using assms(1) by simp
next
  case (Suc n)
  have "\<exists>s'. foldE f [0..<n] s0 = Inr s' \<and> I n s'"
    by (rule Suc.IH) (simp add: Suc.prems)
  then obtain s1 where 1: "foldE f [0..<n] s0 = Inr s1" and 2: "I n s1" by blast
  from Suc.prems [of n s1] 2 obtain s2 where 3: "f n s1 = Inr s2" and 4: "I (Suc n) s2"
    by blast
  show ?case using 1 3 4 by (simp add: foldE_append)
qed

section \<open>Product of two well-formed PauliStrings\<close>

lemma mul_pauli_string_wf:
  assumes "wf_PauliString a" and "wf_PauliString b" and "PauliString_len a = PauliString_len b"
  shows "\<exists>pr ph. mul_pauli_string a b = Inr (pr, ph) \<and> wf_PauliString pr
           \<and> PauliString_len pr = PauliString_len a"
proof -
  from assms have l: "length (z_bits a) = length (x_bits a)" "length (z_bits b) = length (x_bits b)"
    "length (z_bits a) = length (z_bits b)"
    by (simp_all add: wf_PauliString_iff PauliString_len_def)
  show ?thesis
    using l unfolding mul_pauli_string_def PauliString_len_def logical_xor_def logical_and_def
    by (simp add: broadcast2_same PauliString_init_def Let_def wf_PauliString_iff)
qed


lemma mul_body_step:
  assumes "i < length (pauli_strings A)" and "j < length (pauli_strings B)"
    and "length (coefs A) = length (pauli_strings A)"
    and "length (coefs B) = length (pauli_strings B)"
    and "mul_pauli_string (pauli_strings A ! i) (pauli_strings B ! j) = Inr (pr, ph)"
    and "i * n_terms B + j < length cs" and "i * n_terms B + j < length slots"
  shows "mul_body A B i j (cs, slots)
     = Inr (cs[i * n_terms B + j := coefs A ! i * coefs B ! j * ph],
            slots[i * n_terms B + j := Some pr])"
  using assms by (simp add: mul_body_def getitem_def setitem_def)

lemma index_bound: "i < n \<Longrightarrow> j < m \<Longrightarrow> i * m + j < n * (m::nat)"
proof -
  assume "i < n" "j < m"
  then have "i * m + j < Suc i * m" by simp
  also have "\<dots> \<le> n * m" using \<open>i < n\<close> by (intro mult_le_mono1) simp
  finally show ?thesis .
qed

lemma length_check_loop:
  "foldE (\<lambda>pauli u. bindE (slot_len pauli) (\<lambda>l. if l \<noteq> nq then Inl ValueError else Inr u))
     (map Some ps) ()
   = (if list_ex (\<lambda>pauli. PauliString_len pauli \<noteq> nq) ps then Inl ValueError else Inr ())"
  by (induction ps) (simp_all add: slot_len_def)

lemma slot_len_Some: "slot_len (Some p) = Inr (PauliString_len p)"
  by (simp add: slot_len_def)

lemma mapE_unbox_Some: "mapE unbox (map Some ps) = Inr ps"
  by (induction ps) (simp_all add: unbox_def)

lemma LCPS_init_slots_Some: "LCPS_init_slots cs (map Some ps) = LCPS_init cs ps"
proof (cases ps)
  case Nil
  then show ?thesis by (simp add: LCPS_init_slots_def LCPS_init_def getitem_def)
next
  case (Cons p qs)
  have first: "getitem (map Some ps) 0 = Inr (Some p)" "getitem ps 0 = Inr p"
    by (simp_all add: getitem_def Cons)
  show ?thesis
    unfolding LCPS_init_slots_def LCPS_init_def first length_map
    by (simp add: slot_len_Some length_check_loop mapE_unbox_Some Let_def)
qed

section \<open>Product of two linear combinations\<close>

text \<open>
  Claim C6.  For well-formed linear combinations \<open>A\<close>, \<open>B\<close> on the same number of qubits,
  \<open>mul_linear_combinaison_pauli_string\<close> returns a linear combination of
  \<open>len(A) * len(B)\<close> terms; the term at index \<open>i * len(B) + j\<close> has the PauliString
  and the phase that \<open>mul_pauli_string\<close> returns for the \<open>i\<close>-th PauliString of \<open>A\<close>
  and the \<open>j\<close>-th of \<open>B\<close>, and the coefficient \<open>coef_A_i * coef_B_j * phase\<close>.
\<close>

theorem mul_linear_combinaison_pauli_string_terms:
  assumes "wf_LCPS A" and "wf_LCPS B" and "n_qubits A = n_qubits B"
  shows "\<exists>R. mul_linear_combinaison_pauli_string A B = Inr R
      \<and> n_terms R = LCPS_len A * LCPS_len B
      \<and> length (coefs R) = LCPS_len A * LCPS_len B
      \<and> length (pauli_strings R) = LCPS_len A * LCPS_len B
      \<and> (\<forall>i<LCPS_len A. \<forall>j<LCPS_len B. \<exists>pr ph.
            mul_pauli_string (pauli_strings A ! i) (pauli_strings B ! j) = Inr (pr, ph)
          \<and> pauli_strings R ! (i * LCPS_len B + j) = pr
          \<and> coefs R ! (i * LCPS_len B + j) = coefs A ! i * coefs B ! j * ph)"
proof -
  define n where "n = length (pauli_strings A)"
  define m where "m = length (pauli_strings B)"
  note dA = wf_LCPS_D [OF assms(1)] and dB = wf_LCPS_D [OF assms(2)]
  have npos: "0 < n" and mpos: "0 < m"
    using dA(2) dB(2) by (simp_all add: n_def m_def)
  have ntA: "n_terms A = n" and ntB: "n_terms B = m"
    using dA(3) dB(3) by (simp_all add: n_def m_def)
  have lA: "LCPS_len A = n" and lB: "LCPS_len B = m"
    by (simp_all add: LCPS_len_def n_def m_def)
  have wfA: "wf_PauliString (pauli_strings A ! i)" if "i < n" for i
    using assms(1) that by (simp add: wf_LCPS_def list_all_length n_def)
  have wfB: "wf_PauliString (pauli_strings B ! j)" if "j < m" for j
    using assms(2) that by (simp add: wf_LCPS_def list_all_length m_def)
  have lenA: "PauliString_len (pauli_strings A ! i) = n_qubits A" if "i < n" for i
    using that by (intro dA(4) nth_mem) (simp add: n_def)
  have lenB: "PauliString_len (pauli_strings B ! j) = n_qubits A" if "j < m" for j
    unfolding assms(3) using that by (intro dB(4) nth_mem) (simp add: m_def)
  define P where "P i j = (case mul_pauli_string (pauli_strings A ! i) (pauli_strings B ! j) of
      Inr r \<Rightarrow> r | Inl e \<Rightarrow> (pauli_strings A ! i, 0))" for i j
  have P: "mul_pauli_string (pauli_strings A ! i) (pauli_strings B ! j) = Inr (fst (P i j), snd (P i j))
      \<and> wf_PauliString (fst (P i j)) \<and> PauliString_len (fst (P i j)) = n_qubits A"
    if "i < n" "j < m" for i j
  proof -
    from mul_pauli_string_wf [OF wfA [OF that(1)] wfB [OF that(2)]] lenA [OF that(1)] lenB [OF that(2)]
    obtain pr ph where
      "mul_pauli_string (pauli_strings A ! i) (pauli_strings B ! j) = Inr (pr, ph)"
      "wf_PauliString pr" "PauliString_len pr = n_qubits A"
      by auto
    then show ?thesis by (simp add: P_def)
  qed
  define Inv where "Inv k s \<longleftrightarrow>
    length (fst s) = n * m \<and> length (snd s) = n * m \<and>
    (\<forall>q<k. snd s ! q = Some (fst (P (q div m) (q mod m)))
         \<and> fst s ! q = coefs A ! (q div m) * coefs B ! (q mod m) * snd (P (q div m) (q mod m)))"
    for k and s :: "complex list \<times> PauliString option list"
  have step: "\<exists>s'. mul_body A B i j s = Inr s' \<and> Inv (Suc (i * m + j)) s'"
    if "i < n" "j < m" "Inv (i * m + j) s" for i j s
  proof -
    obtain cs slots where s: "s = (cs, slots)" by (cases s)
    from that(3) have lens: "length cs = n * m" "length slots = n * m"
      and old: "\<And>q. q < i * m + j \<Longrightarrow> slots ! q = Some (fst (P (q div m) (q mod m)))
         \<and> cs ! q = coefs A ! (q div m) * coefs B ! (q mod m) * snd (P (q div m) (q mod m))"
      by (simp_all add: Inv_def s)
    have idx: "i * m + j < n * m" using that(1,2) by (rule index_bound)
    have dm: "(i * m + j) div m = i" "(i * m + j) mod m = j"
      using that(2) by simp_all
    have body: "mul_body A B i j (cs, slots)
       = Inr (cs[i * m + j := coefs A ! i * coefs B ! j * snd (P i j)],
              slots[i * m + j := Some (fst (P i j))])"
      using mul_body_step [of i A j B "fst (P i j)" "snd (P i j)" cs slots]
        that(1,2) dA(1) dB(1) P [OF that(1,2)] idx lens
      by (simp add: n_def [symmetric] m_def [symmetric] ntB)
    have "Inv (Suc (i * m + j)) (cs[i * m + j := coefs A ! i * coefs B ! j * snd (P i j)],
              slots[i * m + j := Some (fst (P i j))])"
      unfolding Inv_def
    proof (intro conjI allI impI)
      fix q assume q: "q < Suc (i * m + j)"
      show "snd (cs[i * m + j := coefs A ! i * coefs B ! j * snd (P i j)],
              slots[i * m + j := Some (fst (P i j))]) ! q = Some (fst (P (q div m) (q mod m)))"
      proof (cases "q = i * m + j")
        case True
        then show ?thesis using idx lens dm by simp
      next
        case False
        with q have "q < i * m + j" by simp
        from old [OF this] False show ?thesis by simp
      qed
      show "fst (cs[i * m + j := coefs A ! i * coefs B ! j * snd (P i j)],
              slots[i * m + j := Some (fst (P i j))]) ! q
          = coefs A ! (q div m) * coefs B ! (q mod m) * snd (P (q div m) (q mod m))"
      proof (cases "q = i * m + j")
        case True
        then show ?thesis using idx lens dm by simp
      next
        case False
        with q have "q < i * m + j" by simp
        from old [OF this] False show ?thesis by simp
      qed
    qed (simp_all add: lens)
    with body show ?thesis by (simp add: s)
  qed
  have inner: "\<exists>s'. foldE (\<lambda>j. mul_body A B i j) [0..<m] s = Inr s' \<and> Inv (Suc i * m) s'"
    if "i < n" "Inv (i * m) s" for i s
  proof -
    have "\<exists>s'. foldE (\<lambda>j. mul_body A B i j) [0..<m] s = Inr s' \<and> Inv (i * m + m) s'"
    proof (rule foldE_upt_invariant [where I = "\<lambda>j. Inv (i * m + j)"])
      show "Inv (i * m + 0) s" using that(2) by simp
      show "\<exists>s'. mul_body A B i j s = Inr s' \<and> Inv (i * m + Suc j) s'"
        if "j < m" "Inv (i * m + j) s" for j s
        using step [OF \<open>i < n\<close> that] by simp
    qed
    then show ?thesis by (simp add: add.commute)
  qed
  have init: "Inv (0 * m) (replicate (n * m) 0, replicate (n * m) None)"
    by (simp add: Inv_def)
  have "\<exists>s'. foldE (\<lambda>i. foldE (\<lambda>j. mul_body A B i j) [0..<m]) [0..<n]
                 (replicate (n * m) 0, replicate (n * m) None) = Inr s' \<and> Inv (n * m) s'"
    by (rule foldE_upt_invariant [where I = "\<lambda>i. Inv (i * m)"]) (fact init, fact inner)
  then obtain cs slots where
    loop: "foldE (\<lambda>i. foldE (\<lambda>j. mul_body A B i j) [0..<m]) [0..<n]
                 (replicate (n * m) 0, replicate (n * m) None) = Inr (cs, slots)"
    and fin: "Inv (n * m) (cs, slots)"
    by auto
  from fin have lens: "length cs = n * m" "length slots = n * m"
    and full: "\<And>q. q < n * m \<Longrightarrow> slots ! q = Some (fst (P (q div m) (q mod m)))
         \<and> cs ! q = coefs A ! (q div m) * coefs B ! (q mod m) * snd (P (q div m) (q mod m))"
    by (simp_all add: Inv_def)
  define ps where "ps = map (\<lambda>q. fst (P (q div m) (q mod m))) [0..<n * m]"
  have nm: "0 < n * m" using npos mpos by simp
  have slots: "slots = map Some ps"
    by (rule nth_equalityI) (simp_all add: ps_def lens full)
  have qdm: "q div m < n" "q mod m < m" if "q < n * m" for q
    using that mpos by (simp_all add: less_mult_imp_div_less)
  have ps_len: "length ps = n * m" by (simp add: ps_def)
  have ps_nth: "ps ! q = fst (P (q div m) (q mod m))" if "q < n * m" for q
    using that by (simp add: ps_def)
  have ps_q: "PauliString_len p = n_qubits A" if "p \<in> set ps" for p
  proof -
    from that obtain q where "q < n * m" "p = ps ! q"
      by (auto simp: in_set_conv_nth ps_len)
    then show ?thesis using P [OF qdm [of q]] by (simp add: ps_nth)
  qed
  have ps0: "n_qubits A = PauliString_len (ps ! 0)"
    using ps_q [of "ps ! 0"] nm ps_len by simp
  define R where "R = \<lparr>coefs = cs, pauli_strings = ps, n_terms = length ps, n_qubits = n_qubits A\<rparr>"
  have initR: "LCPS_init cs ps = Inr R"
    unfolding R_def
  proof (rule LCPS_init_Inr)
    show "length cs = length ps" by (simp add: lens ps_len)
    show "ps \<noteq> []" using nm ps_len by auto
    show "\<forall>p\<in>set ps. PauliString_len p = n_qubits A" using ps_q by blast
    show "n_qubits A = PauliString_len (ps ! 0)" by (rule ps0)
  qed
  have res: "mul_linear_combinaison_pauli_string A B = Inr R"
    using assms(3) loop initR LCPS_init_slots_Some [of cs ps, folded slots]
    by (simp add: mul_linear_combinaison_pauli_string_def ntA ntB lA lB)
  have terms: "\<exists>pr ph. mul_pauli_string (pauli_strings A ! i) (pauli_strings B ! j) = Inr (pr, ph)
          \<and> pauli_strings R ! (i * m + j) = pr
          \<and> coefs R ! (i * m + j) = coefs A ! i * coefs B ! j * ph"
    if "i < n" "j < m" for i j
  proof -
    have idx: "i * m + j < n * m" using that by (rule index_bound)
    have dm: "(i * m + j) div m = i" "(i * m + j) mod m = j"
      using that(2) by simp_all
    have "j mod m = j" using that(2) by simp
    with P [OF that] full [OF idx] ps_nth [OF idx] show ?thesis
      by (intro exI [of _ "fst (P i j)"] exI [of _ "snd (P i j)"]) (simp add: R_def dm)
  qed
  show ?thesis
    unfolding lA lB using res terms by (intro exI [of _ R]) (simp add: R_def ps_len lens)
qed

theorem mul_linear_combinaison_pauli_string_terms_witness:
  "wf_LCPS \<lparr>coefs = [1, 2], pauli_strings = [\<lparr>z_bits = [False], x_bits = [True]\<rparr>,
                                             \<lparr>z_bits = [True], x_bits = [False]\<rparr>],
            n_terms = 2, n_qubits = 1\<rparr>
   \<and> wf_LCPS \<lparr>coefs = [3], pauli_strings = [\<lparr>z_bits = [True], x_bits = [True]\<rparr>],
            n_terms = 1, n_qubits = 1\<rparr>
   \<and> mul_linear_combinaison_pauli_string
        \<lparr>coefs = [1, 2], pauli_strings = [\<lparr>z_bits = [False], x_bits = [True]\<rparr>,
                                             \<lparr>z_bits = [True], x_bits = [False]\<rparr>],
            n_terms = 2, n_qubits = 1\<rparr>
        \<lparr>coefs = [3], pauli_strings = [\<lparr>z_bits = [True], x_bits = [True]\<rparr>],
            n_terms = 1, n_qubits = 1\<rparr>
     = Inr \<lparr>coefs = [3 * \<i>, - (6 * \<i>)],
            pauli_strings = [\<lparr>z_bits = [True], x_bits = [False]\<rparr>,
                             \<lparr>z_bits = [False], x_bits = [True]\<rparr>],
            n_terms = 2, n_qubits = 1\<rparr>"
proof -
  let ?A = "\<lparr>coefs = [1, 2], pauli_strings = [\<lparr>z_bits = [False], x_bits = [True]\<rparr>,
                                             \<lparr>z_bits = [True], x_bits = [False]\<rparr>],
            n_terms = 2, n_qubits = 1\<rparr>"
  let ?B = "\<lparr>coefs = [3], pauli_strings = [\<lparr>z_bits = [True], x_bits = [True]\<rparr>],
            n_terms = 1, n_qubits = 1\<rparr>"
  have wA: "wf_LCPS ?A"
    by (simp add: wf_LCPS_def wf_PauliString_def LCPS_init_def PauliString_init_def
        getitem_def PauliString_len_def)
  have wB: "wf_LCPS ?B"
    by (simp add: wf_LCPS_def wf_PauliString_def LCPS_init_def PauliString_init_def
        getitem_def PauliString_len_def)
  have q: "n_qubits ?A = n_qubits ?B" by simp
  have xy: "mul_pauli_string \<lparr>z_bits = [False], x_bits = [True]\<rparr> \<lparr>z_bits = [True], x_bits = [True]\<rparr>
      = Inr (\<lparr>z_bits = [True], x_bits = [False]\<rparr>, \<i>)"
    by (simp add: mul_pauli_string_def PauliString_len_def logical_xor_def logical_and_def
        broadcast2_def np_sum_def PauliString_init_def power3_eq_cube)
  have zy: "mul_pauli_string \<lparr>z_bits = [True], x_bits = [False]\<rparr> \<lparr>z_bits = [True], x_bits = [True]\<rparr>
      = Inr (\<lparr>z_bits = [False], x_bits = [True]\<rparr>, - \<i>)"
    by (simp add: mul_pauli_string_def PauliString_len_def logical_xor_def logical_and_def
        broadcast2_def np_sum_def PauliString_init_def)
  from mul_linear_combinaison_pauli_string_terms [OF wA wB q]
  obtain R where r: "mul_linear_combinaison_pauli_string ?A ?B = Inr R"
    and nt: "n_terms R = 2" and lc: "length (coefs R) = 2" and lp: "length (pauli_strings R) = 2"
    and t: "\<And>i j. i < 2 \<Longrightarrow> j < 1 \<Longrightarrow> \<exists>pr ph.
            mul_pauli_string (pauli_strings ?A ! i) (pauli_strings ?B ! j) = Inr (pr, ph)
          \<and> pauli_strings R ! (i * 1 + j) = pr
          \<and> coefs R ! (i * 1 + j) = coefs ?A ! i * coefs ?B ! j * ph"
    by (auto simp: LCPS_len_def)
  from t [of 0 0] xy have t0: "pauli_strings R ! 0 = \<lparr>z_bits = [True], x_bits = [False]\<rparr>"
      "coefs R ! 0 = 3 * \<i>" by simp_all
  from t [of 1 0] zy have t1: "pauli_strings R ! 1 = \<lparr>z_bits = [False], x_bits = [True]\<rparr>"
      "coefs R ! 1 = - (6 * \<i>)" by simp_all
  have u: "[0..<2] = [0, Suc 0]" by code_simp
  have "mul_linear_combinaison_pauli_string ?A ?B
      = Inr \<lparr>coefs = [3 * \<i>, - (6 * \<i>)],
            pauli_strings = [\<lparr>z_bits = [True], x_bits = [False]\<rparr>,
                             \<lparr>z_bits = [False], x_bits = [True]\<rparr>],
            n_terms = 2, n_qubits = 1\<rparr>"
    by (simp add: mul_linear_combinaison_pauli_string_def LCPS_len_def mul_body_def getitem_def
        setitem_def xy zy unbox_def slot_len_def LCPS_init_slots_def PauliString_len_def u)
  with wA wB r t0 t1 show ?thesis by simp
qed

section \<open>The table of zx rows\<close>

lemma foldE_map: "foldE f (map g xs) s = foldE (\<lambda>x. f (g x)) xs s"
  by (induction xs arbitrary: s) (simp_all add: bindE_def split: sum.splits)

lemma enumerate_nth: "enumerate 0 xs = map (\<lambda>i. (i, xs ! i)) [0..<length xs]"
  by (rule nth_equalityI) (simp_all add: enumerate_eq_zip)

lemma LCPS_to_zx_bits_wf:
  assumes "wf_LCPS L"
  shows "LCPS_to_zx_bits L = Inr (map to_zx_bits (pauli_strings L))"
proof -
  define n where "n = length (pauli_strings L)"
  define w where "w = 2 * n_qubits L"
  note d = wf_LCPS_D [OF assms]
  have row: "length (to_zx_bits (pauli_strings L ! k)) = w" if "k < n" for k
    using d(5,6) [of "pauli_strings L ! k"] that by (simp add: to_zx_bits_def w_def n_def)
  define I where "I k t \<longleftrightarrow> length t = n \<and> (\<forall>q<n. length (t ! q) = w)
      \<and> (\<forall>q<k. t ! q = to_zx_bits (pauli_strings L ! q))" for k and t :: "bool list list"
  have "\<exists>t. foldE (\<lambda>i. assign_row' i) [0..<n] (replicate n (replicate w False)) = Inr t \<and> I n t"
    if a: "\<And>i t. assign_row' i t = assign_row t i (to_zx_bits (pauli_strings L ! i))"
    for assign_row'
  proof (rule foldE_upt_invariant)
    show "I 0 (replicate n (replicate w False))" by (simp add: I_def)
    show "\<exists>t'. assign_row' k t = Inr t' \<and> I (Suc k) t'" if "k < n" "I k t" for k t
    proof -
      from that(2) have lt: "length t = n" and wd: "\<And>q. q < n \<Longrightarrow> length (t ! q) = w"
        and old: "\<And>q. q < k \<Longrightarrow> t ! q = to_zx_bits (pauli_strings L ! q)"
        by (simp_all add: I_def)
      have "assign_row' k t = Inr (t[k := to_zx_bits (pauli_strings L ! k)])"
        using that(1) lt wd [OF that(1)] row [OF that(1)] by (simp add: a assign_row_def)
      moreover have "I (Suc k) (t[k := to_zx_bits (pauli_strings L ! k)])"
        using lt wd old row that(1) by (auto simp: I_def nth_list_update less_Suc_eq)
      ultimately show ?thesis by blast
    qed
  qed
  from this [of "\<lambda>i t. assign_row t i (to_zx_bits (pauli_strings L ! i))"]
  obtain t where t: "foldE (\<lambda>i t. assign_row t i (to_zx_bits (pauli_strings L ! i))) [0..<n]
        (replicate n (replicate w False)) = Inr t" and "I n t"
    by auto
  from \<open>I n t\<close> have "t = map to_zx_bits (pauli_strings L)"
    by (intro nth_equalityI) (simp_all add: I_def n_def)
  with t show ?thesis
    by (simp add: LCPS_to_zx_bits_def enumerate_nth foldE_map LCPS_len_def n_def w_def)
qed

section \<open>Sorted rows without repetition\<close>

lemma sorted_distinct_adj_distinct:
  fixes xs :: "'a::linorder list"
  shows "sorted xs \<Longrightarrow> distinct_adj xs \<Longrightarrow> distinct xs"
proof (induction xs)
  case Nil
  show ?case by simp
next
  case (Cons x xs)
  show ?case
  proof (cases xs)
    case Nil
    then show ?thesis by simp
  next
    case (Cons y ys)
    from Cons.prems Cons have xy: "x \<noteq> y" and le: "\<forall>z \<in> set xs. x \<le> z" and yle: "\<forall>z \<in> set ys. y \<le> z"
      by auto
    have "x \<notin> set xs"
    proof
      assume "x \<in> set xs"
      with Cons xy have "x \<in> set ys" by simp
      with yle have "y \<le> x" by blast
      moreover from le Cons have "x \<le> y" by simp
      ultimately show False using xy by simp
    qed
    moreover from Cons.prems Cons.IH have "distinct xs"
      by (simp add: distinct_adj_ConsD)
    ultimately show ?thesis by simp
  qed
qed

lemma np_unique_rows_props:
  "sorted_wrt (<) (np_unique_rows rows)" "set (np_unique_rows rows) = set rows"
proof -
  have "sorted (remdups_adj (sort rows))" by (simp add: sorted_remdups_adj)
  moreover from this have "distinct (remdups_adj (sort rows))"
    by (rule sorted_distinct_adj_distinct) simp
  ultimately show "sorted_wrt (<) (np_unique_rows rows)"
    by (simp add: strict_sorted_iff np_unique_rows_def)
  show "set (np_unique_rows rows) = set rows" by (simp add: np_unique_rows_def)
qed

lemma np_unique_rows_id: "sorted_wrt (<) rows \<Longrightarrow> np_unique_rows rows = rows"
  by (simp add: strict_sorted_iff np_unique_rows_def sorted_sort_id remdups_adj_distinct)

section \<open>Selecting and summing coefficients\<close>

lemma py_sum_sum_list: "py_sum xs = sum_list xs"
proof -
  have "foldl (\<lambda>a b. a + b) a xs = a + sum_list xs" for a :: complex
    by (induction xs arbitrary: a) (simp_all add: add.assoc)
  from this [of 0] show ?thesis by (simp add: py_sum_def)
qed

lemma sum_list_mask:
  "length cs = length bs \<Longrightarrow>
   sum_list (map fst (filter snd (zip cs bs))) = (\<Sum>j<length cs. if bs ! j then cs ! j else (0::complex))"
proof (induction cs bs rule: list_induct2)
  case Nil
  show ?case by simp
next
  case (Cons c cs b bs)
  have "(\<Sum>j<Suc (length cs). if (b # bs) ! j then (c # cs) ! j else 0)
      = (if b then c else 0) + (\<Sum>j<length cs. if bs ! j then cs ! j else 0)"
    by (simp add: sum.lessThan_Suc_shift del: sum.lessThan_Suc cong: if_cong)
  with Cons.IH show ?case by simp
qed

lemma masked_sum:
  assumes "length cs = length rows"
  shows "bindE (index_array cs (BoolMask (map (\<lambda>row. row = u) rows))) (\<lambda>sel. Inr (py_sum sel))
       = Inr (\<Sum>j<length rows. if rows ! j = u then cs ! j else 0)"
proof -
  have "sum_list (map fst (filter snd (zip cs (map (\<lambda>row. row = u) rows))))
      = (\<Sum>j<length cs. if map (\<lambda>row. row = u) rows ! j then cs ! j else 0)"
    by (rule sum_list_mask) (simp add: assms)
  also have "\<dots> = (\<Sum>j<length rows. if rows ! j = u then cs ! j else 0)"
    unfolding assms by (rule sum.cong) simp_all
  finally show ?thesis
    using assms by (simp add: index_array_def py_sum_sum_list)
qed

section \<open>Combining equal PauliStrings\<close>

lemma combine_wf:
  assumes "wf_LCPS L" and "U = np_unique_rows (map to_zx_bits (pauli_strings L))"
  shows "combine L =
     Inr \<lparr>coefs = map (\<lambda>u. \<Sum>j<length (pauli_strings L).
                            if to_zx_bits (pauli_strings L ! j) = u then coefs L ! j else 0) U,
          pauli_strings = map (\<lambda>u. \<lparr>z_bits = take (n_qubits L) u, x_bits = drop (n_qubits L) u\<rparr>) U,
          n_terms = length U, n_qubits = n_qubits L\<rparr>"
proof -
  define rows where "rows = map to_zx_bits (pauli_strings L)"
  define nq where "nq = n_qubits L"
  define g where "g u = \<lparr>z_bits = take nq u, x_bits = drop nq u\<rparr>" for u
  define h where "h u = (\<Sum>j<length (pauli_strings L).
                            if to_zx_bits (pauli_strings L ! j) = u then coefs L ! j else 0)" for u
  note d = wf_LCPS_D [OF assms(1)]
  have table: "LCPS_to_zx_bits L = Inr rows"
    unfolding rows_def using assms(1) by (rule LCPS_to_zx_bits_wf)
  have U: "U = np_unique_rows rows" by (simp add: assms(2) rows_def)
  have setU: "set U = set rows" unfolding U by (rule np_unique_rows_props)
  have lenU: "length u = 2 * nq" if "u \<in> set U" for u
  proof -
    from that setU obtain p where "p \<in> set (pauli_strings L)" "u = to_zx_bits p"
      by (auto simp: rows_def)
    with d(5,6) [of p] show ?thesis by (simp add: to_zx_bits_def nq_def)
  qed
  have "rows \<noteq> []" using d(2) by (simp add: rows_def)
  with setU have Une: "U \<noteq> []" by auto
  have ps: "mapE from_zx_bits U = Inr (map g U)"
  proof (rule mapE_Inr)
    fix u assume "u \<in> set U"
    from lenU [OF this] show "from_zx_bits u = Inr (g u)"
      by (simp add: from_zx_bits_def PauliString_init_def g_def)
  qed
  have lr: "length (coefs L) = length rows" using d(1) by (simp add: rows_def)
  have cs: "mapE (\<lambda>u. bindE (index_array (coefs L) (BoolMask (map (\<lambda>row. row = u) rows)))
                          (\<lambda>sel. Inr (py_sum sel))) U = Inr (map h U)"
  proof (rule mapE_Inr)
    fix u
    have "(\<Sum>j<length rows. if rows ! j = u then coefs L ! j else 0) = h u"
      unfolding h_def by (rule sum.cong) (simp_all add: rows_def)
    with masked_sum [OF lr, of u]
    show "bindE (index_array (coefs L) (BoolMask (map (\<lambda>row. row = u) rows)))
            (\<lambda>sel. Inr (py_sum sel)) = Inr (h u)"
      by simp
  qed
  have q: "PauliString_len p = nq" if "p \<in> set (map g U)" for p
  proof -
    from that obtain u where "u \<in> set U" "p = g u" by auto
    with lenU [of u] show ?thesis by (simp add: g_def PauliString_len_def)
  qed
  have init: "LCPS_init (map h U) (map g U)
      = Inr \<lparr>coefs = map h U, pauli_strings = map g U, n_terms = length (map g U), n_qubits = nq\<rparr>"
  proof (rule LCPS_init_Inr)
    show "length (map h U) = length (map g U)" by simp
    show "map g U \<noteq> []" using Une by simp
    show "\<forall>p\<in>set (map g U). PauliString_len p = nq" using q by blast
    show "nq = PauliString_len (map g U ! 0)"
      using q [of "map g U ! 0"] Une by simp
  qed
  have "combine L = Inr \<lparr>coefs = map h U, pauli_strings = map g U,
      n_terms = length (map g U), n_qubits = nq\<rparr>"
    using table ps cs init by (simp add: combine_def U [symmetric])
  then show ?thesis
    by (simp add: g_def [abs_def] h_def [abs_def] nq_def)
qed

text \<open>
  Claim C2.  For a well-formed linear combination \<open>L\<close>, \<open>combine\<close> returns a linear
  combination whose zx patterns are strictly ascending (so pairwise distinct) and are
  exactly the patterns that occur in \<open>L\<close>; the coefficient of a term is the sum of the
  coefficients of the terms of \<open>L\<close> with that pattern; and \<open>combine\<close> applied to the result
  returns the result.
\<close>

theorem combine_groups:
  assumes "wf_LCPS L"
  shows "\<exists>R. combine L = Inr R
     \<and> sorted_wrt (<) (map to_zx_bits (pauli_strings R))
     \<and> set (map to_zx_bits (pauli_strings R)) = set (map to_zx_bits (pauli_strings L))
     \<and> length (coefs R) = length (pauli_strings R)
     \<and> (\<forall>k<length (pauli_strings R).
           coefs R ! k = (\<Sum>j<length (pauli_strings L).
              if to_zx_bits (pauli_strings L ! j) = to_zx_bits (pauli_strings R ! k)
              then coefs L ! j else 0))
     \<and> combine R = Inr R"
proof -
  define U where "U = np_unique_rows (map to_zx_bits (pauli_strings L))"
  define nq where "nq = n_qubits L"
  define g where "g u = \<lparr>z_bits = take nq u, x_bits = drop nq u\<rparr>" for u
  define h where "h u = (\<Sum>j<length (pauli_strings L).
                            if to_zx_bits (pauli_strings L ! j) = u then coefs L ! j else 0)" for u
  define R where "R = \<lparr>coefs = map h U, pauli_strings = map g U, n_terms = length U, n_qubits = nq\<rparr>"
  note d = wf_LCPS_D [OF assms]
  have res: "combine L = Inr R"
    using combine_wf [OF assms U_def] by (simp add: R_def g_def [abs_def] h_def [abs_def] nq_def)
  have sU: "sorted_wrt (<) U" and setU: "set U = set (map to_zx_bits (pauli_strings L))"
    unfolding U_def by (rule np_unique_rows_props)+
  have dU: "distinct U" using sU by (simp add: strict_sorted_iff)
  have lenU: "length u = 2 * nq" if "u \<in> set U" for u
  proof -
    from that setU obtain p where "p \<in> set (pauli_strings L)" "u = to_zx_bits p"
      by auto
    with d(5,6) [of p] show ?thesis by (simp add: to_zx_bits_def nq_def)
  qed
  have zx_g: "to_zx_bits (g u) = u" for u
    by (simp add: to_zx_bits_def g_def)
  have rowsR: "map to_zx_bits (pauli_strings R) = U"
    by (simp add: R_def zx_g o_def)
  have Une: "U \<noteq> []" using setU d(2) by auto
  have wfR: "wf_LCPS R"
  proof (rule LCPS_init_wf)
    have "LCPS_init (map h U) (map g U)
       = Inr \<lparr>coefs = map h U, pauli_strings = map g U, n_terms = length (map g U),
              n_qubits = nq\<rparr>"
    proof (rule LCPS_init_Inr)
      show "length (map h U) = length (map g U)" by simp
      show "map g U \<noteq> []" using Une by simp
      show "\<forall>p\<in>set (map g U). PauliString_len p = nq"
        using lenU by (auto simp: g_def PauliString_len_def)
      show "nq = PauliString_len (map g U ! 0)"
        using lenU [of "U ! 0"] Une by (simp add: g_def PauliString_len_def)
    qed
    then show "LCPS_init (map h U) (map g U) = Inr R" by (simp add: R_def)
    show "list_all wf_PauliString (map g U)"
      using lenU by (auto simp: list_all_iff wf_PauliString_iff g_def)
  qed
  have coefR: "coefs R ! k = h (to_zx_bits (pauli_strings R ! k))" if "k < length U" for k
    using that by (simp add: R_def zx_g)
  have again: "combine R = Inr R"
  proof -
    have U': "U = np_unique_rows (map to_zx_bits (pauli_strings R))"
      unfolding rowsR using sU by (simp add: np_unique_rows_id)
    have one: "(\<Sum>j<length (pauli_strings R).
          if to_zx_bits (pauli_strings R ! j) = u then coefs R ! j else 0) = h u"
      if "u \<in> set U" for u
    proof -
      from that obtain k where k: "k < length U" "u = U ! k"
        by (auto simp: in_set_conv_nth)
      have "(\<Sum>j<length (pauli_strings R).
          if to_zx_bits (pauli_strings R ! j) = u then coefs R ! j else 0)
        = (\<Sum>j<length U. if j = k then h (U ! k) else 0)"
      proof (rule sum.cong)
        show "{..<length (pauli_strings R)} = {..<length U}" by (simp add: R_def)
        fix j assume "j \<in> {..<length U}"
        then have j: "j < length U" by simp
        have "U ! j = U ! k \<longleftrightarrow> j = k"
          using dU j k(1) by (simp add: nth_eq_iff_index_eq)
        then show "(if to_zx_bits (pauli_strings R ! j) = u then coefs R ! j else 0)
            = (if j = k then h (U ! k) else 0)"
          using j by (auto simp: R_def zx_g k(2))
      qed
      also have "\<dots> = h u" using k by simp
      finally show ?thesis .
    qed
    have "combine R = Inr \<lparr>coefs = map (\<lambda>u. \<Sum>j<length (pauli_strings R).
                            if to_zx_bits (pauli_strings R ! j) = u then coefs R ! j else 0) U,
          pauli_strings = map (\<lambda>u. \<lparr>z_bits = take (n_qubits R) u, x_bits = drop (n_qubits R) u\<rparr>) U,
          n_terms = length U, n_qubits = n_qubits R\<rparr>"
      using wfR U' by (rule combine_wf)
    also have "map (\<lambda>u. \<Sum>j<length (pauli_strings R).
                            if to_zx_bits (pauli_strings R ! j) = u then coefs R ! j else 0) U
          = map h U"
      by (rule map_cong) (simp_all add: one)
    finally show ?thesis
      by (simp add: R_def g_def [abs_def])
  qed
  show ?thesis
  proof (intro exI [of _ R] conjI allI impI)
    show "combine L = Inr R" by (rule res)
    show "sorted_wrt (<) (map to_zx_bits (pauli_strings R))" unfolding rowsR by (rule sU)
    show "set (map to_zx_bits (pauli_strings R)) = set (map to_zx_bits (pauli_strings L))"
      unfolding rowsR by (rule setU)
    show "length (coefs R) = length (pauli_strings R)" by (simp add: R_def)
    show "combine R = Inr R" by (rule again)
    fix k assume "k < length (pauli_strings R)"
    then have "k < length U" by (simp add: R_def)
    from coefR [OF this]
    show "coefs R ! k = (\<Sum>j<length (pauli_strings L).
              if to_zx_bits (pauli_strings L ! j) = to_zx_bits (pauli_strings R ! k)
              then coefs L ! j else 0)"
      by (simp add: h_def)
  qed
qed

theorem combine_groups_witness:
  "wf_LCPS \<lparr>coefs = [1, 2, 3],
            pauli_strings = [\<lparr>z_bits = [True, False], x_bits = [False, True]\<rparr>,
                             \<lparr>z_bits = [True, False], x_bits = [False, True]\<rparr>,
                             \<lparr>z_bits = [False, False], x_bits = [False, False]\<rparr>],
            n_terms = 3, n_qubits = 2\<rparr>
   \<and> combine \<lparr>coefs = [1, 2, 3],
            pauli_strings = [\<lparr>z_bits = [True, False], x_bits = [False, True]\<rparr>,
                             \<lparr>z_bits = [True, False], x_bits = [False, True]\<rparr>,
                             \<lparr>z_bits = [False, False], x_bits = [False, False]\<rparr>],
            n_terms = 3, n_qubits = 2\<rparr>
     = Inr \<lparr>coefs = [3, 3],
            pauli_strings = [\<lparr>z_bits = [False, False], x_bits = [False, False]\<rparr>,
                             \<lparr>z_bits = [True, False], x_bits = [False, True]\<rparr>],
            n_terms = 2, n_qubits = 2\<rparr>
   \<and> combine \<lparr>coefs = [3, 3],
            pauli_strings = [\<lparr>z_bits = [False, False], x_bits = [False, False]\<rparr>,
                             \<lparr>z_bits = [True, False], x_bits = [False, True]\<rparr>],
            n_terms = 2, n_qubits = 2\<rparr>
     = Inr \<lparr>coefs = [3, 3],
            pauli_strings = [\<lparr>z_bits = [False, False], x_bits = [False, False]\<rparr>,
                             \<lparr>z_bits = [True, False], x_bits = [False, True]\<rparr>],
            n_terms = 2, n_qubits = 2\<rparr>"
proof -
  let ?L = "\<lparr>coefs = [1, 2, 3],
            pauli_strings = [\<lparr>z_bits = [True, False], x_bits = [False, True]\<rparr>,
                             \<lparr>z_bits = [True, False], x_bits = [False, True]\<rparr>,
                             \<lparr>z_bits = [False, False], x_bits = [False, False]\<rparr>],
            n_terms = 3, n_qubits = 2\<rparr>"
  have w: "wf_LCPS ?L"
    by (simp add: wf_LCPS_def wf_PauliString_def LCPS_init_def PauliString_init_def
        getitem_def PauliString_len_def)
  have c: "combine ?L = Inr \<lparr>coefs = [3, 3],
            pauli_strings = [\<lparr>z_bits = [False, False], x_bits = [False, False]\<rparr>,
                             \<lparr>z_bits = [True, False], x_bits = [False, True]\<rparr>],
            n_terms = 2, n_qubits = 2\<rparr>"
    by (simp add: PauliString_init_def LCPS_init_def getitem_def
      PauliString_len_def combine_def LCPS_to_zx_bits_def LCPS_len_def assign_row_def to_zx_bits_def
      np_unique_rows_def from_zx_bits_def index_array_def py_sum_def)
  from combine_groups [OF w] obtain R where "combine ?L = Inr R" "combine R = Inr R"
    by blast
  with w c show ?thesis by simp
qed

section \<open>Frame rules\<close>

lemma frame_return: "(\<And>h. Q v h) \<Longrightarrow> frame h0 (returnH v) Q"
  by (simp add: frame_def returnH_def)

lemma frame_raise: "frame h0 (raiseH e) Q"
  by (simp add: frame_def raiseH_def)

lemma frame_liftE: "(\<And>v h. Q v h) \<Longrightarrow> frame h0 (liftE r) Q"
  by (simp add: frame_def liftE_def split: sum.splits)

lemma frame_bind:
  assumes "frame h0 m (\<lambda>v h. P v)" and "\<And>v. P v \<Longrightarrow> frame h0 (f v) Q"
  shows "frame h0 (bindH m f) Q"
  unfolding frame_def
proof (intro allI impI)
  fix h assume h: "prefix h0 h"
  obtain res h1 where m: "m h = (res, h1)" by (cases "m h")
  from assms(1) h m have p1: "prefix h0 h1" and r: "case res of Inl e \<Rightarrow> True | Inr v \<Rightarrow> P v"
    by (auto simp: frame_def)
  show "case bindH m f h of (res, h') \<Rightarrow> prefix h0 h' \<and> (case res of Inl e \<Rightarrow> True | Inr v \<Rightarrow> Q v h')"
  proof (cases res)
    case (Inl e)
    with m p1 show ?thesis by (simp add: bindH_def)
  next
    case (Inr v)
    with r have "P v" by simp
    from assms(2) [OF this] p1 have
      "case f v h1 of (res, h') \<Rightarrow> prefix h0 h' \<and> (case res of Inl e \<Rightarrow> True | Inr v \<Rightarrow> Q v h')"
      by (simp add: frame_def)
    with m Inr show ?thesis by (simp add: bindH_def)
  qed
qed

lemma frame_weaken: "frame h0 m P \<Longrightarrow> (\<And>v h. P v h \<Longrightarrow> Q v h) \<Longrightarrow> frame h0 m Q"
  unfolding frame_def by (fastforce split: prod.splits sum.splits)

lemma frame_alloc_at:
  "frame h0 (alloc ob) (\<lambda>r h'. length h0 \<le> r \<and> r < length h' \<and> h' ! r = ob)"
  by (auto simp: frame_def alloc_def prefix_def)

lemma frame_alloc: "frame h0 (alloc ob) (\<lambda>r h'. length h0 \<le> r)"
  by (rule frame_weaken [OF frame_alloc_at]) simp

lemma frame_load: "frame h0 (load r) (\<lambda>ob h. True)"
  by (simp add: frame_def load_def)

lemma prefix_update: "prefix h0 h \<Longrightarrow> length h0 \<le> r \<Longrightarrow> prefix h0 (h[r := ob])"
  by (auto simp: prefix_def list_update_append)

lemma frame_store: "length h0 \<le> r \<Longrightarrow> frame h0 (store r ob) (\<lambda>u h. True)"
  by (simp add: frame_def store_def prefix_update)

lemma frame_foldH:
  assumes "\<And>a s. frame h0 (f a s) (\<lambda>s h. True)"
  shows "frame h0 (foldH f as s) (\<lambda>s h. True)"
proof (induction as arbitrary: s)
  case Nil
  show ?case by (simp add: frame_return)
next
  case (Cons a as)
  show ?case
    by (simp, rule frame_bind [OF assms]) (rule Cons.IH)
qed

lemma frame_mapH:
  assumes "\<And>a. frame h0 (f a) (\<lambda>v h. True)"
  shows "frame h0 (mapH f as) (\<lambda>vs h. True)"
proof (induction as)
  case Nil
  show ?case by (simp add: frame_return)
next
  case (Cons a as)
  show ?case
    by (simp, intro frame_bind [OF assms] frame_bind [OF Cons.IH] frame_return TrueI)
qed

text \<open>The rules in the form the proofs below apply them: a statement, then the rest.\<close>

lemma frame_any: "frame h0 m P \<Longrightarrow> frame h0 m (\<lambda>v h. True)"
  by (erule frame_weaken) simp

lemma frame_then:
  assumes "frame h0 m P" and "\<And>v. frame h0 (f v) Q"
  shows "frame h0 (bindH m f) Q"
  using frame_any [OF assms(1)] by (rule frame_bind) (rule assms(2))

lemma frame_alloc_then:
  "(\<And>r. length h0 \<le> r \<Longrightarrow> frame h0 (f r) Q) \<Longrightarrow> frame h0 (bindH (alloc ob) f) Q"
  by (rule frame_bind [OF frame_alloc])

lemma frame_load_typed:
  "frame h0 (load_CArr r) (\<lambda>v h. True)" "frame h0 (load_BArr r) (\<lambda>v h. True)"
  "frame h0 (load_BTab r) (\<lambda>v h. True)" "frame h0 (load_OArr r) (\<lambda>v h. True)"
  "frame h0 (load_PS r) (\<lambda>v h. True)" "frame h0 (load_LC r) (\<lambda>v h. True)"
  "frame h0 (load_PyList r) (\<lambda>v h. True)"
  unfolding load_CArr_def load_BArr_def load_BTab_def load_OArr_def load_PS_def load_LC_def
    load_PyList_def
  by (auto intro!: frame_bind [OF frame_load] frame_return frame_raise split: obj.splits)

lemma frame_load_slot: "frame h0 (load_slot slot) (\<lambda>v h. True)"
  by (auto simp: load_slot_def intro: frame_return frame_raise split: option.splits)

section \<open>No operation replaces an object that existed before\<close>

lemma frame_liftE_any: "frame h0 (liftE r) (\<lambda>v h. True)"
  by (rule frame_liftE) simp

lemmas frame_steps =
  frame_then [OF frame_load_typed(1)] frame_then [OF frame_load_typed(2)]
  frame_then [OF frame_load_typed(3)] frame_then [OF frame_load_typed(4)]
  frame_then [OF frame_load_typed(5)] frame_then [OF frame_load_typed(6)]
  frame_then [OF frame_load_typed(7)]
  frame_then [OF frame_load_slot] frame_then [OF frame_liftE_any]
  frame_alloc_then frame_raise frame_alloc frame_any [OF frame_alloc]

lemma frame_PauliString_init_h: "frame h0 (PauliString_init_h z x) (\<lambda>r h. length h0 \<le> r)"
  unfolding PauliString_init_h_def by (auto intro!: frame_steps)

lemma frame_PauliString_len_h: "frame h0 (PauliString_len_h p) (\<lambda>n h. True)"
  unfolding PauliString_len_h_def by (auto intro!: frame_steps frame_return split: prod.splits)

lemma frame_to_zx_bits_h: "frame h0 (to_zx_bits_h p) (\<lambda>r h. length h0 \<le> r)"
  unfolding to_zx_bits_h_def by (auto intro!: frame_steps split: prod.splits)

lemma frame_from_zx_bits_h: "frame h0 (from_zx_bits_h bits) (\<lambda>r h. length h0 \<le> r)"
  unfolding from_zx_bits_h_def by (auto intro!: frame_steps frame_PauliString_init_h)

lemma frame_mul_pauli_string_h: "frame h0 (mul_pauli_string_h a b) (\<lambda>v h. True)"
  unfolding mul_pauli_string_h_def
  by (auto intro!: frame_steps frame_then [OF frame_PauliString_len_h]
      frame_then [OF frame_PauliString_init_h] frame_return
      simp: Let_def split: prod.splits)

lemma frame_slot_len_h: "frame h0 (slot_len_h slot) (\<lambda>n h. True)"
  unfolding slot_len_h_def by (auto intro!: frame_steps frame_PauliString_len_h)

lemma frame_alloc_LCobj:
  assumes "length h0 \<le> c" and "length h0 \<le> p"
  shows "frame h0 (alloc (LCobj c p nt nq)) (\<lambda>r h'. new_instance h0 h' r)"
  by (rule frame_weaken [OF frame_alloc_at]) (simp add: new_instance_def assms)

lemma frame_LCPS_init_h: "frame h0 (LCPS_init_h c p) (\<lambda>r h'. new_instance h0 h' r)"
  unfolding LCPS_init_h_def
  by (auto intro!: frame_steps frame_then [OF frame_slot_len_h] frame_then [OF frame_foldH]
      frame_return frame_alloc_LCobj)

lemma frame_LCPS_len_h: "frame h0 (LCPS_len_h self) (\<lambda>n h. True)"
  unfolding LCPS_len_h_def by (auto intro!: frame_steps frame_return split: prod.splits)

lemma frame_LCPS_getitem_h: "frame h0 (LCPS_getitem_h self k) (\<lambda>r h'. new_instance h0 h' r)"
  unfolding LCPS_getitem_h_def
  by (auto intro!: frame_steps frame_LCPS_init_h split: prod.splits)

lemma frame_add_h:
  "frame h0 (add_pauli_string_linear_combinaison_h self other) (\<lambda>r h'. new_instance h0 h' r)"
  unfolding add_pauli_string_linear_combinaison_h_def
  by (auto intro!: frame_steps frame_LCPS_init_h split: prod.splits)

lemma frame_mul_body_h:
  assumes "length h0 \<le> new_coefs" and "length h0 \<le> new_pauli_strings"
  shows "frame h0 (mul_body_h self other new_coefs new_pauli_strings i j) (\<lambda>u h. True)"
  unfolding mul_body_h_def
  by (auto intro!: frame_steps frame_then [OF frame_mul_pauli_string_h]
      frame_then [OF frame_store] frame_store assms split: prod.splits)

lemma frame_mul_h:
  "frame h0 (mul_linear_combinaison_pauli_string_h self other) (\<lambda>r h'. new_instance h0 h' r)"
  unfolding mul_linear_combinaison_pauli_string_h_def
  by (auto intro!: frame_steps frame_then [OF frame_LCPS_len_h] frame_then [OF frame_foldH]
      frame_foldH frame_mul_body_h frame_LCPS_init_h split: prod.splits)

lemma frame_mul_coef_h: "frame h0 (mul_coef_h self other) (\<lambda>r h'. new_instance h0 h' r)"
  unfolding mul_coef_h_def
  by (auto intro!: frame_steps frame_then [OF frame_LCPS_len_h] frame_LCPS_init_h
      split: prod.splits factor_h.splits)

lemma frame_LCPS_to_zx_bits_h: "frame h0 (LCPS_to_zx_bits_h self) (\<lambda>r h. True)"
  unfolding LCPS_to_zx_bits_h_def
  by (auto intro!: frame_steps frame_then [OF frame_LCPS_len_h] frame_then [OF frame_foldH]
      frame_then [OF frame_to_zx_bits_h] frame_store frame_return split: prod.splits)

lemma frame_combine_h: "frame h0 (combine_h self) (\<lambda>r h'. new_instance h0 h' r)"
  unfolding combine_h_def
  by (auto intro!: frame_steps frame_then [OF frame_LCPS_to_zx_bits_h]
      frame_then [OF frame_mapH] frame_any [OF frame_from_zx_bits_h] frame_LCPS_init_h
      split: prod.splits)

lemma frame_apply_threshold_h: "frame h0 (apply_threshold_h self t) (\<lambda>r h'. new_instance h0 h' r)"
  unfolding apply_threshold_h_def
  by (auto intro!: frame_steps frame_LCPS_getitem_h split: prod.splits)

lemma frame_sort_lcps_h: "frame h0 (sort_lcps_h self) (\<lambda>r h'. new_instance h0 h' r)"
  unfolding sort_lcps_h_def
  by (auto intro!: frame_steps frame_then [OF frame_LCPS_to_zx_bits_h] frame_LCPS_init_h
      simp: Let_def split: prod.splits)

lemma frameD:
  assumes "frame h m Q"
  shows "case m h of (res, h') \<Rightarrow> prefix h h' \<and> (case res of Inl e \<Rightarrow> True | Inr v \<Rightarrow> Q v h')"
  using assms by (simp add: frame_def)

section \<open>Instances keep their values\<close>

lemma prefix_nth: "prefix h h' \<Longrightarrow> r < length h \<Longrightarrow> h' ! r = h ! r"
  by (auto simp: prefix_def nth_append)

lemma prefix_less: "prefix h h' \<Longrightarrow> r < length h \<Longrightarrow> r < length h'"
  by (auto simp: prefix_def)

lemma read_CArr_prefix: "prefix h h' \<Longrightarrow> read_CArr h r = Some v \<Longrightarrow> read_CArr h' r = Some v"
  by (auto simp: read_CArr_def prefix_nth prefix_less split: if_splits)

lemma read_BArr_prefix: "prefix h h' \<Longrightarrow> read_BArr h r = Some v \<Longrightarrow> read_BArr h' r = Some v"
  by (auto simp: read_BArr_def prefix_nth prefix_less split: if_splits)

lemma read_OArr_prefix: "prefix h h' \<Longrightarrow> read_OArr h r = Some v \<Longrightarrow> read_OArr h' r = Some v"
  by (auto simp: read_OArr_def prefix_nth prefix_less split: if_splits)

lemma read_PS_prefix:
  assumes "prefix h h'" and "read_PS h r = Some v"
  shows "read_PS h' r = Some v"
proof -
  from assms(2) obtain z x zs xs where r: "r < length h" and o: "h ! r = PSobj z x"
    and z: "read_BArr h z = Some zs" and x: "read_BArr h x = Some xs"
    and v: "v = \<lparr>z_bits = zs, x_bits = xs\<rparr>"
    by (auto simp: read_PS_def split: if_splits obj.splits option.splits)
  from assms(1) r o have "r < length h'" "h' ! r = PSobj z x"
    by (simp_all add: prefix_nth prefix_less)
  with read_BArr_prefix [OF assms(1) z] read_BArr_prefix [OF assms(1) x] v
  show ?thesis by (simp add: read_PS_def)
qed

lemma read_slot_prefix:
  "prefix h h' \<Longrightarrow> read_slot h s = Some v \<Longrightarrow> read_slot h' s = Some v"
  by (auto simp: read_slot_def read_PS_prefix split: option.splits)

lemma those_map_mono:
  "those (map f xs) = Some vs \<Longrightarrow> (\<And>x v. f x = Some v \<Longrightarrow> g x = Some v)
   \<Longrightarrow> those (map g xs) = Some vs"
proof (induction xs arbitrary: vs)
  case Nil
  then show ?case by simp
next
  case (Cons x xs)
  from Cons.prems(1) obtain v ws where fx: "f x = Some v" and t: "those (map f xs) = Some ws"
    and vs: "vs = v # ws"
    by (auto split: option.splits)
  from Cons.IH [OF t Cons.prems(2)] Cons.prems(2) [OF fx] vs show ?case by simp
qed

lemma read_LC_prefix:
  assumes "prefix h h'" and "read_LC h r = Some A"
  shows "read_LC h' r = Some A"
proof -
  from assms(2) obtain c p nt nq cs slots ps where r: "r < length h"
    and o: "h ! r = LCobj c p nt nq"
    and c: "read_CArr h c = Some cs" and p: "read_OArr h p = Some slots"
    and t: "those (map (read_slot h) slots) = Some ps"
    and A: "A = \<lparr>coefs = cs, pauli_strings = ps, n_terms = nt, n_qubits = nq\<rparr>"
    by (auto simp: read_LC_def split: if_splits obj.splits option.splits)
  from assms(1) r o have "r < length h'" "h' ! r = LCobj c p nt nq"
    by (simp_all add: prefix_nth prefix_less)
  moreover have "those (map (read_slot h') slots) = Some ps"
    using t by (rule those_map_mono) (rule read_slot_prefix [OF assms(1)])
  ultimately show ?thesis
    using read_CArr_prefix [OF assms(1) c] read_OArr_prefix [OF assms(1) p] A
    by (simp add: read_LC_def)
qed

lemma frame_leaves_operands:
  assumes "frame h m (\<lambda>r h'. new_instance h h' r)"
  shows "leaves_operands h m"
proof -
  obtain res h' where m: "m h = (res, h')" by (cases "m h")
  from frameD [OF assms] m have p: "prefix h h'"
    and n: "case res of Inl e \<Rightarrow> True | Inr r \<Rightarrow> new_instance h h' r"
    by simp_all
  from p have "\<forall>a A. read_LC h a = Some A \<longrightarrow> read_LC h' a = Some A"
    by (blast intro: read_LC_prefix)
  with p n m show ?thesis by (simp add: leaves_operands_def)
qed

text \<open>
  Claim C9.  Each derived operation on linear combinations (add, multiply by a linear
  combination, multiply by numbers, item access and slicing, \<open>apply_threshold\<close>, \<open>sort\<close>,
  \<open>combine\<close>), run in any store on any arguments, leaves every object of the store in
  place, so its operands keep their coefficients and PauliStrings, and what it returns
  is a new instance.  The only item assignments of the source go into arrays that the
  running operation allocated itself.
\<close>

theorem derived_operations_leave_operands:
  "leaves_operands h (add_pauli_string_linear_combinaison_h self other)
   \<and> leaves_operands h (mul_linear_combinaison_pauli_string_h self other)
   \<and> leaves_operands h (mul_coef_h self fac)
   \<and> leaves_operands h (LCPS_getitem_h self k)
   \<and> leaves_operands h (apply_threshold_h self threshold)
   \<and> leaves_operands h (sort_lcps_h self)
   \<and> leaves_operands h (combine_h self)"
  by (intro conjI frame_leaves_operands frame_add_h frame_mul_h frame_mul_coef_h
      frame_LCPS_getitem_h frame_apply_threshold_h frame_sort_lcps_h frame_combine_h)

text \<open>
  The theorem at \<open>sort\<close> on a store holding \<open>1 X + 2 Z\<close> at reference 8: the call allocates
  eight objects, returns reference 16, the instance at 8 still stands for \<open>1 X + 2 Z\<close>,
  and the new instance stands for what \<open>sort_lcps\<close> returns on that value.
\<close>

theorem derived_operations_leave_operands_witness:
  "sort_lcps_h 8 [BArr [False], BArr [True], PSobj 0 1, BArr [True], BArr [False], PSobj 3 4,
        CArr [1, 2], OArr [Some 2, Some 5], LCobj 6 7 2 1]
     = (Inr 16, [BArr [False], BArr [True], PSobj 0 1, BArr [True], BArr [False], PSobj 3 4,
        CArr [1, 2], OArr [Some 2, Some 5], LCobj 6 7 2 1,
        BTab [[False, True], [True, False]], BArr [False, True], BArr [True, False],
        CArr [2, 1], OArr [Some 5, Some 2], CArr [2, 1], OArr [Some 5, Some 2], LCobj 14 15 2 1])
   \<and> new_instance [BArr [False], BArr [True], PSobj 0 1, BArr [True], BArr [False], PSobj 3 4,
        CArr [1, 2], OArr [Some 2, Some 5], LCobj 6 7 2 1]
       [BArr [False], BArr [True], PSobj 0 1, BArr [True], BArr [False], PSobj 3 4,
        CArr [1, 2], OArr [Some 2, Some 5], LCobj 6 7 2 1,
        BTab [[False, True], [True, False]], BArr [False, True], BArr [True, False],
        CArr [2, 1], OArr [Some 5, Some 2], CArr [2, 1], OArr [Some 5, Some 2], LCobj 14 15 2 1] 16
   \<and> read_LC [BArr [False], BArr [True], PSobj 0 1, BArr [True], BArr [False], PSobj 3 4,
        CArr [1, 2], OArr [Some 2, Some 5], LCobj 6 7 2 1] 8
     = Some \<lparr>coefs = [1, 2], pauli_strings = [\<lparr>z_bits = [False], x_bits = [True]\<rparr>,
                                                \<lparr>z_bits = [True], x_bits = [False]\<rparr>],
             n_terms = 2, n_qubits = 1\<rparr>
   \<and> read_LC [BArr [False], BArr [True], PSobj 0 1, BArr [True], BArr [False], PSobj 3 4,
        CArr [1, 2], OArr [Some 2, Some 5], LCobj 6 7 2 1,
        BTab [[False, True], [True, False]], BArr [False, True], BArr [True, False],
        CArr [2, 1], OArr [Some 5, Some 2], CArr [2, 1], OArr [Some 5, Some 2], LCobj 14 15 2 1] 8
     = Some \<lparr>coefs = [1, 2], pauli_strings = [\<lparr>z_bits = [False], x_bits = [True]\<rparr>,
                                                \<lparr>z_bits = [True], x_bits = [False]\<rparr>],
             n_terms = 2, n_qubits = 1\<rparr>
   \<and> read_LC [BArr [False], BArr [True], PSobj 0 1, BArr [True], BArr [False], PSobj 3 4,
        CArr [1, 2], OArr [Some 2, Some 5], LCobj 6 7 2 1,
        BTab [[False, True], [True, False]], BArr [False, True], BArr [True, False],
        CArr [2, 1], OArr [Some 5, Some 2], CArr [2, 1], OArr [Some 5, Some 2], LCobj 14 15 2 1] 16
     = Some \<lparr>coefs = [2, 1], pauli_strings = [\<lparr>z_bits = [True], x_bits = [False]\<rparr>,
                                                \<lparr>z_bits = [False], x_bits = [True]\<rparr>],
             n_terms = 2, n_qubits = 1\<rparr>
   \<and> sort_lcps \<lparr>coefs = [1, 2], pauli_strings = [\<lparr>z_bits = [False], x_bits = [True]\<rparr>,
                                                \<lparr>z_bits = [True], x_bits = [False]\<rparr>],
             n_terms = 2, n_qubits = 1\<rparr>
     = Inr \<lparr>coefs = [2, 1], pauli_strings = [\<lparr>z_bits = [True], x_bits = [False]\<rparr>,
                                                \<lparr>z_bits = [False], x_bits = [True]\<rparr>],
             n_terms = 2, n_qubits = 1\<rparr>"
proof -
  let ?H = "[BArr [False], BArr [True], PSobj 0 1, BArr [True], BArr [False], PSobj 3 4,
        CArr [1, 2], OArr [Some 2, Some 5], LCobj 6 7 2 1]"
  let ?H' = "[BArr [False], BArr [True], PSobj 0 1, BArr [True], BArr [False], PSobj 3 4,
        CArr [1, 2], OArr [Some 2, Some 5], LCobj 6 7 2 1,
        BTab [[False, True], [True, False]], BArr [False, True], BArr [True, False],
        CArr [2, 1], OArr [Some 5, Some 2], CArr [2, 1], OArr [Some 5, Some 2], LCobj 14 15 2 1]"
  let ?L = "\<lparr>coefs = [1, 2], pauli_strings = [\<lparr>z_bits = [False], x_bits = [True]\<rparr>,
                                                \<lparr>z_bits = [True], x_bits = [False]\<rparr>],
             n_terms = 2, n_qubits = 1\<rparr>"
  have run: "sort_lcps_h 8 ?H = (Inr 16, ?H')"
    by (simp add: bindH_def returnH_def raiseH_def liftE_def alloc_def load_def store_def
        load_CArr_def load_BArr_def load_BTab_def load_OArr_def load_PS_def load_LC_def
        load_slot_def PauliString_len_h_def to_zx_bits_h_def slot_len_h_def LCPS_init_h_def
        LCPS_len_h_def LCPS_to_zx_bits_h_def sort_lcps_h_def
        getitem_def assign_row_def np_argsort_def bit_char_def Let_def)
  have "leaves_operands ?H (sort_lcps_h 8)"
    using derived_operations_leave_operands [of ?H 8] by blast
  with run have new: "new_instance ?H ?H' 16"
    and keep: "\<And>a A. read_LC ?H a = Some A \<Longrightarrow> read_LC ?H' a = Some A"
    unfolding leaves_operands_def by simp_all
  have before: "read_LC ?H 8 = Some ?L"
    by (simp add: read_LC_def read_CArr_def read_OArr_def read_slot_def read_PS_def read_BArr_def)
  have after: "read_LC ?H' 8 = Some ?L"
    using before by (rule keep)
  have result: "read_LC ?H' 16 = Some \<lparr>coefs = [2, 1],
      pauli_strings = [\<lparr>z_bits = [True], x_bits = [False]\<rparr>, \<lparr>z_bits = [False], x_bits = [True]\<rparr>],
      n_terms = 2, n_qubits = 1\<rparr>"
    by (simp add: read_LC_def read_CArr_def read_OArr_def read_slot_def read_PS_def read_BArr_def)
  have pure: "sort_lcps ?L = Inr \<lparr>coefs = [2, 1],
      pauli_strings = [\<lparr>z_bits = [True], x_bits = [False]\<rparr>, \<lparr>z_bits = [False], x_bits = [True]\<rparr>],
      n_terms = 2, n_qubits = 1\<rparr>"
    by (simp add: PauliString_init_def LCPS_init_def getitem_def
      PauliString_len_def sort_lcps_def LCPS_to_zx_bits_def LCPS_len_def assign_row_def
      to_zx_bits_def np_argsort_def bit_char_def)
  from run new before after result pure show ?thesis by blast
qed

section \<open>The store and the values on an example\<close>

text \<open>
  On the store that holds \<open>1 X + 2 Z\<close> at reference 8, the product of the instance with
  itself and its \<open>combine\<close> return instances that stand for what the functions on values
  return for \<open>1 X + 2 Z\<close>.
\<close>

lemmas store_eval = bindH_def returnH_def raiseH_def liftE_def alloc_def load_def store_def
  load_CArr_def load_BArr_def load_BTab_def load_OArr_def load_PS_def load_LC_def
  load_slot_def PauliString_len_h_def to_zx_bits_h_def slot_len_h_def LCPS_init_h_def
  LCPS_len_h_def LCPS_to_zx_bits_h_def PauliString_init_h_def from_zx_bits_h_def
  mul_pauli_string_h_def mul_body_h_def

lemmas read_eval = read_LC_def read_CArr_def read_OArr_def read_slot_def read_PS_def read_BArr_def

lemmas value_eval = PauliString_init_def LCPS_init_def getitem_def setitem_def PauliString_len_def
  LCPS_to_zx_bits_def LCPS_len_def assign_row_def to_zx_bits_def from_zx_bits_def
  logical_xor_def logical_and_def broadcast2_def np_sum_def power3_eq_cube

lemma upt_2: "[0..<2] = [0, Suc 0]"
  by code_simp

lemma mul_store_example:
  "mul_linear_combinaison_pauli_string_h 8 8
     [BArr [False], BArr [True], PSobj 0 1, BArr [True], BArr [False], PSobj 3 4,
      CArr [1, 2], OArr [Some 2, Some 5], LCobj 6 7 2 1]
   = (Inr 25,
     [BArr [False], BArr [True], PSobj 0 1, BArr [True], BArr [False], PSobj 3 4,
      CArr [1, 2], OArr [Some 2, Some 5], LCobj 6 7 2 1,
      CArr [1, - (2 * \<i>), 2 * \<i>, 4], OArr [Some 13, Some 16, Some 19, Some 22],
      BArr [False], BArr [False], PSobj 11 12, BArr [True], BArr [True], PSobj 14 15,
      BArr [True], BArr [True], PSobj 17 18, BArr [False], BArr [False], PSobj 20 21,
      CArr [1, - (2 * \<i>), 2 * \<i>, 4], OArr [Some 13, Some 16, Some 19, Some 22],
      LCobj 23 24 4 1])"
  "read_LC
     [BArr [False], BArr [True], PSobj 0 1, BArr [True], BArr [False], PSobj 3 4,
      CArr [1, 2], OArr [Some 2, Some 5], LCobj 6 7 2 1,
      CArr [1, - (2 * \<i>), 2 * \<i>, 4], OArr [Some 13, Some 16, Some 19, Some 22],
      BArr [False], BArr [False], PSobj 11 12, BArr [True], BArr [True], PSobj 14 15,
      BArr [True], BArr [True], PSobj 17 18, BArr [False], BArr [False], PSobj 20 21,
      CArr [1, - (2 * \<i>), 2 * \<i>, 4], OArr [Some 13, Some 16, Some 19, Some 22],
      LCobj 23 24 4 1] 25
   = Some \<lparr>coefs = [1, - (2 * \<i>), 2 * \<i>, 4],
           pauli_strings = [\<lparr>z_bits = [False], x_bits = [False]\<rparr>, \<lparr>z_bits = [True], x_bits = [True]\<rparr>,
                            \<lparr>z_bits = [True], x_bits = [True]\<rparr>, \<lparr>z_bits = [False], x_bits = [False]\<rparr>],
           n_terms = 4, n_qubits = 1\<rparr>"
  "mul_linear_combinaison_pauli_string
     \<lparr>coefs = [1, 2], pauli_strings = [\<lparr>z_bits = [False], x_bits = [True]\<rparr>,
                                        \<lparr>z_bits = [True], x_bits = [False]\<rparr>],
      n_terms = 2, n_qubits = 1\<rparr>
     \<lparr>coefs = [1, 2], pauli_strings = [\<lparr>z_bits = [False], x_bits = [True]\<rparr>,
                                        \<lparr>z_bits = [True], x_bits = [False]\<rparr>],
      n_terms = 2, n_qubits = 1\<rparr>
   = Inr \<lparr>coefs = [1, - (2 * \<i>), 2 * \<i>, 4],
           pauli_strings = [\<lparr>z_bits = [False], x_bits = [False]\<rparr>, \<lparr>z_bits = [True], x_bits = [True]\<rparr>,
                            \<lparr>z_bits = [True], x_bits = [True]\<rparr>, \<lparr>z_bits = [False], x_bits = [False]\<rparr>],
           n_terms = 4, n_qubits = 1\<rparr>"
proof -
  show "mul_linear_combinaison_pauli_string_h 8 8
     [BArr [False], BArr [True], PSobj 0 1, BArr [True], BArr [False], PSobj 3 4,
      CArr [1, 2], OArr [Some 2, Some 5], LCobj 6 7 2 1]
   = (Inr 25,
     [BArr [False], BArr [True], PSobj 0 1, BArr [True], BArr [False], PSobj 3 4,
      CArr [1, 2], OArr [Some 2, Some 5], LCobj 6 7 2 1,
      CArr [1, - (2 * \<i>), 2 * \<i>, 4], OArr [Some 13, Some 16, Some 19, Some 22],
      BArr [False], BArr [False], PSobj 11 12, BArr [True], BArr [True], PSobj 14 15,
      BArr [True], BArr [True], PSobj 17 18, BArr [False], BArr [False], PSobj 20 21,
      CArr [1, - (2 * \<i>), 2 * \<i>, 4], OArr [Some 13, Some 16, Some 19, Some 22],
      LCobj 23 24 4 1])"
    by (simp add: store_eval mul_linear_combinaison_pauli_string_h_def upt_2 value_eval Let_def)
  show "read_LC
     [BArr [False], BArr [True], PSobj 0 1, BArr [True], BArr [False], PSobj 3 4,
      CArr [1, 2], OArr [Some 2, Some 5], LCobj 6 7 2 1,
      CArr [1, - (2 * \<i>), 2 * \<i>, 4], OArr [Some 13, Some 16, Some 19, Some 22],
      BArr [False], BArr [False], PSobj 11 12, BArr [True], BArr [True], PSobj 14 15,
      BArr [True], BArr [True], PSobj 17 18, BArr [False], BArr [False], PSobj 20 21,
      CArr [1, - (2 * \<i>), 2 * \<i>, 4], OArr [Some 13, Some 16, Some 19, Some 22],
      LCobj 23 24 4 1] 25
   = Some \<lparr>coefs = [1, - (2 * \<i>), 2 * \<i>, 4],
           pauli_strings = [\<lparr>z_bits = [False], x_bits = [False]\<rparr>, \<lparr>z_bits = [True], x_bits = [True]\<rparr>,
                            \<lparr>z_bits = [True], x_bits = [True]\<rparr>, \<lparr>z_bits = [False], x_bits = [False]\<rparr>],
           n_terms = 4, n_qubits = 1\<rparr>"
    by (simp add: read_eval)
  show "mul_linear_combinaison_pauli_string
     \<lparr>coefs = [1, 2], pauli_strings = [\<lparr>z_bits = [False], x_bits = [True]\<rparr>,
                                        \<lparr>z_bits = [True], x_bits = [False]\<rparr>],
      n_terms = 2, n_qubits = 1\<rparr>
     \<lparr>coefs = [1, 2], pauli_strings = [\<lparr>z_bits = [False], x_bits = [True]\<rparr>,
                                        \<lparr>z_bits = [True], x_bits = [False]\<rparr>],
      n_terms = 2, n_qubits = 1\<rparr>
   = Inr \<lparr>coefs = [1, - (2 * \<i>), 2 * \<i>, 4],
           pauli_strings = [\<lparr>z_bits = [False], x_bits = [False]\<rparr>, \<lparr>z_bits = [True], x_bits = [True]\<rparr>,
                            \<lparr>z_bits = [True], x_bits = [True]\<rparr>, \<lparr>z_bits = [False], x_bits = [False]\<rparr>],
           n_terms = 4, n_qubits = 1\<rparr>"
    by (simp add: value_eval mul_linear_combinaison_pauli_string_def mul_body_def
        mul_pauli_string_def LCPS_init_slots_def slot_len_def unbox_def upt_2)
qed


lemma combine_store_example:
  "combine_h 8
     [BArr [False], BArr [True], PSobj 0 1, BArr [True], BArr [False], PSobj 3 4,
      CArr [1, 2], OArr [Some 2, Some 5], LCobj 6 7 2 1]
   = (Inr 23,
     [BArr [False], BArr [True], PSobj 0 1, BArr [True], BArr [False], PSobj 3 4,
      CArr [1, 2], OArr [Some 2, Some 5], LCobj 6 7 2 1,
      BTab [[False, True], [True, False]], BArr [False, True], BArr [True, False],
      BTab [[False, True], [True, False]], BArr [False], BArr [True], PSobj 13 14,
      BArr [True], BArr [False], PSobj 16 17, OArr [Some 15, Some 18],
      CArr [1, 2], CArr [1, 2], OArr [Some 15, Some 18], LCobj 21 22 2 1])"
  "read_LC
     [BArr [False], BArr [True], PSobj 0 1, BArr [True], BArr [False], PSobj 3 4,
      CArr [1, 2], OArr [Some 2, Some 5], LCobj 6 7 2 1,
      BTab [[False, True], [True, False]], BArr [False, True], BArr [True, False],
      BTab [[False, True], [True, False]], BArr [False], BArr [True], PSobj 13 14,
      BArr [True], BArr [False], PSobj 16 17, OArr [Some 15, Some 18],
      CArr [1, 2], CArr [1, 2], OArr [Some 15, Some 18], LCobj 21 22 2 1] 23
   = Some \<lparr>coefs = [1, 2], pauli_strings = [\<lparr>z_bits = [False], x_bits = [True]\<rparr>,
                                        \<lparr>z_bits = [True], x_bits = [False]\<rparr>],
      n_terms = 2, n_qubits = 1\<rparr>"
  "combine \<lparr>coefs = [1, 2], pauli_strings = [\<lparr>z_bits = [False], x_bits = [True]\<rparr>,
                                        \<lparr>z_bits = [True], x_bits = [False]\<rparr>],
      n_terms = 2, n_qubits = 1\<rparr>
   = Inr \<lparr>coefs = [1, 2], pauli_strings = [\<lparr>z_bits = [False], x_bits = [True]\<rparr>,
                                        \<lparr>z_bits = [True], x_bits = [False]\<rparr>],
      n_terms = 2, n_qubits = 1\<rparr>"
proof -
  show "combine_h 8
     [BArr [False], BArr [True], PSobj 0 1, BArr [True], BArr [False], PSobj 3 4,
      CArr [1, 2], OArr [Some 2, Some 5], LCobj 6 7 2 1]
   = (Inr 23,
     [BArr [False], BArr [True], PSobj 0 1, BArr [True], BArr [False], PSobj 3 4,
      CArr [1, 2], OArr [Some 2, Some 5], LCobj 6 7 2 1,
      BTab [[False, True], [True, False]], BArr [False, True], BArr [True, False],
      BTab [[False, True], [True, False]], BArr [False], BArr [True], PSobj 13 14,
      BArr [True], BArr [False], PSobj 16 17, OArr [Some 15, Some 18],
      CArr [1, 2], CArr [1, 2], OArr [Some 15, Some 18], LCobj 21 22 2 1])"
    by (simp add: store_eval combine_h_def value_eval np_unique_rows_def index_array_def
        py_sum_def Let_def)
  show "read_LC
     [BArr [False], BArr [True], PSobj 0 1, BArr [True], BArr [False], PSobj 3 4,
      CArr [1, 2], OArr [Some 2, Some 5], LCobj 6 7 2 1,
      BTab [[False, True], [True, False]], BArr [False, True], BArr [True, False],
      BTab [[False, True], [True, False]], BArr [False], BArr [True], PSobj 13 14,
      BArr [True], BArr [False], PSobj 16 17, OArr [Some 15, Some 18],
      CArr [1, 2], CArr [1, 2], OArr [Some 15, Some 18], LCobj 21 22 2 1] 23
   = Some \<lparr>coefs = [1, 2], pauli_strings = [\<lparr>z_bits = [False], x_bits = [True]\<rparr>,
                                        \<lparr>z_bits = [True], x_bits = [False]\<rparr>],
      n_terms = 2, n_qubits = 1\<rparr>"
    by (simp add: read_eval)
  show "combine \<lparr>coefs = [1, 2], pauli_strings = [\<lparr>z_bits = [False], x_bits = [True]\<rparr>,
                                        \<lparr>z_bits = [True], x_bits = [False]\<rparr>],
      n_terms = 2, n_qubits = 1\<rparr>
   = Inr \<lparr>coefs = [1, 2], pauli_strings = [\<lparr>z_bits = [False], x_bits = [True]\<rparr>,
                                        \<lparr>z_bits = [True], x_bits = [False]\<rparr>],
      n_terms = 2, n_qubits = 1\<rparr>"
    by (simp add: value_eval combine_def np_unique_rows_def index_array_def py_sum_def)
qed

end
